theory Spec2Isabelle
  imports Complex_Main "HOL-Library.Sublist"
begin

section \<open>Strings of the host language\<close>

text \<open>
  A string of the program is a sequence of UTF-16 code units; the model keeps the code
  units as natural numbers, so that a character outside Latin-1 (a code unit above 255)
  can be told from a byte. \<open>js\<close> turns an ASCII literal into its code units.
\<close>

type_synonym jsstring = "nat list"

definition js :: "string \<Rightarrow> jsstring" where
  "js s = map of_char s"

text \<open>\<open>String.prototype.includes\<close> is \<open>sublist\<close>, \<open>startsWith\<close> is \<open>prefix\<close>.\<close>

definition includes_str :: "jsstring \<Rightarrow> jsstring \<Rightarrow> bool" where
  "includes_str s needle = sublist needle s"

definition startsWith :: "jsstring \<Rightarrow> jsstring \<Rightarrow> bool" where
  "startsWith s p = prefix p s"

text \<open>
  \<open>String.prototype.trim\<close> removes the white space and line terminators of the language
  from both ends.
\<close>

definition is_js_whitespace :: "nat \<Rightarrow> bool" where
  "is_js_whitespace c =
     (c \<in> set [9, 10, 11, 12, 13, 32, 160, 5760, 8232, 8233, 8239, 8287, 12288, 65279]
      \<or> (8192 \<le> c \<and> c \<le> 8202))"

definition trim :: "jsstring \<Rightarrow> jsstring" where
  "trim s = rev (dropWhile is_js_whitespace (rev (dropWhile is_js_whitespace s)))"

text \<open>
  \<open>String.prototype.toLowerCase\<close>. The needles the program looks for in a lower-cased
  string are ASCII, and the only code units above 127 whose lower case holds an ASCII
  code unit are U+0130 and U+212A; every other code unit above 127 is mapped by the
  platform to code units above 127, and is left as it is here.
\<close>

definition lower_unit :: "nat \<Rightarrow> nat list" where
  "lower_unit c =
     (if 65 \<le> c \<and> c \<le> 90 then [c + 32]
      else if c = 304 then [105, 775]
      else if c = 8490 then [107]
      else [c])"

definition toLowerCase :: "jsstring \<Rightarrow> jsstring" where
  "toLowerCase s = concat (map lower_unit s)"

text \<open>
  Case-insensitive matching of a regular expression without the \<open>u\<close> flag compares the
  canonical forms of single code units: the upper case, except that a code unit above
  127 never canonicalises into ASCII. Against an ASCII pattern it is enough to fold
  ASCII letters.
\<close>

definition canonicalize :: "nat \<Rightarrow> nat" where
  "canonicalize c = (if 97 \<le> c \<and> c \<le> 122 then c - 32 else c)"

section \<open>The platform's base64 functions\<close>

text \<open>
  \<open>btoa\<close> and \<open>atob\<close> are functions of the browser, specified by the HTML standard:
  \<open>btoa\<close> throws \<open>InvalidCharacterError\<close> when a code unit is above 255 and otherwise
  applies base64 (RFC 4648) to the code units read as bytes; \<open>atob\<close> is the standard's
  forgiving-base64 decode. \<open>None\<close> stands for the exception.
\<close>

definition b64_char :: "nat \<Rightarrow> nat" where
  "b64_char n =
     (if n < 26 then 65 + n
      else if n < 52 then 71 + n
      else if n < 62 then n - 4
      else if n = 62 then 43
      else 47)"

definition b64_index :: "nat \<Rightarrow> nat option" where
  "b64_index c =
     (if 65 \<le> c \<and> c \<le> 90 then Some (c - 65)
      else if 97 \<le> c \<and> c \<le> 122 then Some (c - 71)
      else if 48 \<le> c \<and> c \<le> 57 then Some (c + 4)
      else if c = 43 then Some 62
      else if c = 47 then Some 63
      else None)"

fun b64_encode :: "nat list \<Rightarrow> nat list" where
  "b64_encode (a # b # c # rest) =
     [b64_char (a div 4), b64_char ((a mod 4) * 16 + b div 16),
      b64_char ((b mod 16) * 4 + c div 64), b64_char (c mod 64)] @ b64_encode rest"
| "b64_encode [a, b] =
     [b64_char (a div 4), b64_char ((a mod 4) * 16 + b div 16), b64_char ((b mod 16) * 4), 61]"
| "b64_encode [a] = [b64_char (a div 4), b64_char ((a mod 4) * 16), 61, 61]"
| "b64_encode [] = []"

definition btoa :: "jsstring \<Rightarrow> jsstring option" where
  "btoa s = (if list_all (\<lambda>c. c < 256) s then Some (b64_encode s) else None)"

definition is_ascii_whitespace :: "nat \<Rightarrow> bool" where
  "is_ascii_whitespace c = (c = 9 \<or> c = 10 \<or> c = 12 \<or> c = 13 \<or> c = 32)"

text \<open>
  When the length is a multiple of four, one or two trailing \<open>=\<close> are removed.
\<close>

definition strip_padding :: "nat list \<Rightarrow> nat list" where
  "strip_padding d =
     (if length d mod 4 = 0 then
        (if suffix [61, 61] d then take (length d - 2) d
         else if suffix [61] d then take (length d - 1) d
         else d)
      else d)"

text \<open>
  Sextets to bytes: 24 bits give three bytes, 18 bits two (the last two bits dropped),
  12 bits one (the last four dropped).
\<close>

fun b64_decode :: "nat list \<Rightarrow> nat list" where
  "b64_decode (w # x # y # z # rest) =
     [w * 4 + x div 16, (x mod 16) * 16 + y div 4, (y mod 4) * 64 + z] @ b64_decode rest"
| "b64_decode [w, x, y] = [w * 4 + x div 16, (x mod 16) * 16 + y div 4]"
| "b64_decode [w, x] = [w * 4 + x div 16]"
| "b64_decode _ = []"

definition atob :: "jsstring \<Rightarrow> jsstring option" where
  "atob s =
     (let d = strip_padding (filter (\<lambda>c. \<not> is_ascii_whitespace c) s) in
      if length d mod 4 = 1 then None
      else case those (map b64_index d) of
             None \<Rightarrow> None
           | Some sx \<Rightarrow> Some (b64_decode sx))"

section \<open>Exceptions and messages\<close>

text \<open>
  The messages the two variants of the application show, by constructor:
  \<^item> \<open>InsiraUrl\<close>: "Por favor, insira um URL";
  \<^item> \<open>DominioNaoAutorizado\<close>: "Acesso negado: dominio nao autorizado";
  \<^item> \<open>ReferrerNaoAutorizado\<close>: "Acesso negado: referrer nao autorizado";
  \<^item> \<open>LinkDiretoInvalido\<close>: "Por favor, insira um link direto valido (terminando com
    .mp4, .mp3, etc.)";
  \<^item> \<open>ErroBlobProtegido\<close>: "Erro ao criar blob protegido";
  \<^item> \<open>UrlInvalida\<close>: "URL invalida";
  \<^item> \<open>InsiraUrlValido\<close>: "Por favor, insira um URL valido";
  \<^item> \<open>UrlInvalido\<close>: "URL invalido. Certifique-se que e um link direto para um arquivo
    de midia.";
  \<^item> \<open>ErroCarregarMidia\<close>: "Erro ao carregar midia. Verifique se o link esta correto e
    acessivel.";
  \<^item> \<open>LinkCompartilhadoInvalido\<close>: "Link compartilhado invalido";
  \<^item> \<open>PlayerCarregado\<close>: "Player carregado com sucesso!";
  \<^item> \<open>PlatformMessage e\<close>: the message of an exception object of the platform.
\<close>

datatype platform_exn = InvalidCharacterError | IndexSizeError | TypeError | URIError

datatype message =
    NoMessage
  | InsiraUrl
  | DominioNaoAutorizado
  | ReferrerNaoAutorizado
  | LinkDiretoInvalido
  | ErroBlobProtegido
  | UrlInvalida
  | InsiraUrlValido
  | UrlInvalido
  | ErroCarregarMidia
  | LinkCompartilhadoInvalido
  | PlayerCarregado
  | PlatformMessage platform_exn

datatype exn = Platform platform_exn | Error message

fun exn_message :: "exn \<Rightarrow> message" where
  "exn_message (Platform e) = PlatformMessage e"
| "exn_message (Error m) = m"

section \<open>Token codec (App.tsx)\<close>

definition encodeUrl :: "jsstring \<Rightarrow> exn + jsstring" where
  "encodeUrl url =
     (case btoa url of None \<Rightarrow> Inl (Platform InvalidCharacterError) | Some t \<Rightarrow> Inr t)"

definition decodeUrl :: "jsstring \<Rightarrow> exn + jsstring" where
  "decodeUrl encodedUrl =
     (case atob encodedUrl of None \<Rightarrow> Inl (Error UrlInvalida) | Some u \<Rightarrow> Inr u)"

section \<open>Numbers of the host language\<close>

text \<open>
  A number of the program is an IEEE 754 double: a finite value, an infinity or NaN. The
  two zeros are not told apart; where the sign of a zero matters, in a division by zero,
  the zero is the positive one, as the width of a rectangle is.
\<close>

datatype double = Finite real | PosInf | NegInf | NaN

text \<open>
  The rounding of the platform is a parameter: \<open>rounded\<close> takes the exact result of an
  operation to the double next to it (with no bound on the exponent), and a result
  beyond \<open>largest\<close>, the largest finite double, is an infinity.
\<close>

record fpu =
  rounded :: "real \<Rightarrow> real"
  largest :: real

definition to_double :: "fpu \<Rightarrow> real \<Rightarrow> double" where
  "to_double fp r =
     (let q = rounded fp r in
      if largest fp < q then PosInf
      else if q < - largest fp then NegInf
      else Finite q)"

definition is_finite :: "double \<Rightarrow> bool" where
  "is_finite a = (case a of Finite x \<Rightarrow> True | _ \<Rightarrow> False)"

text \<open>Subtraction, division and multiplication of doubles.\<close>

fun fsub :: "fpu \<Rightarrow> double \<Rightarrow> double \<Rightarrow> double" where
  "fsub fp (Finite x) (Finite y) = to_double fp (x - y)"
| "fsub fp NaN b = NaN"
| "fsub fp a NaN = NaN"
| "fsub fp PosInf PosInf = NaN"
| "fsub fp NegInf NegInf = NaN"
| "fsub fp PosInf b = PosInf"
| "fsub fp NegInf b = NegInf"
| "fsub fp a PosInf = NegInf"
| "fsub fp a NegInf = PosInf"

fun fdiv :: "fpu \<Rightarrow> double \<Rightarrow> double \<Rightarrow> double" where
  "fdiv fp (Finite x) (Finite y) =
     (if y = 0 then (if x = 0 then NaN else if 0 < x then PosInf else NegInf)
      else to_double fp (x / y))"
| "fdiv fp NaN b = NaN"
| "fdiv fp a NaN = NaN"
| "fdiv fp (Finite x) b = Finite 0"
| "fdiv fp PosInf (Finite y) = (if 0 \<le> y then PosInf else NegInf)"
| "fdiv fp NegInf (Finite y) = (if 0 \<le> y then NegInf else PosInf)"
| "fdiv fp a b = NaN"

fun fmul :: "fpu \<Rightarrow> double \<Rightarrow> double \<Rightarrow> double" where
  "fmul fp (Finite x) (Finite y) = to_double fp (x * y)"
| "fmul fp NaN b = NaN"
| "fmul fp a NaN = NaN"
| "fmul fp (Finite x) PosInf = (if x = 0 then NaN else if 0 < x then PosInf else NegInf)"
| "fmul fp (Finite x) NegInf = (if x = 0 then NaN else if 0 < x then NegInf else PosInf)"
| "fmul fp PosInf (Finite y) = (if y = 0 then NaN else if 0 < y then PosInf else NegInf)"
| "fmul fp NegInf (Finite y) = (if y = 0 then NaN else if 0 < y then NegInf else PosInf)"
| "fmul fp PosInf PosInf = PosInf"
| "fmul fp NegInf NegInf = PosInf"
| "fmul fp a b = NegInf"

text \<open>
  A real is a double of the unit when rounding leaves it as it is and it is within the
  finite range; a double lies within bounds when it is finite and between them.
\<close>

definition is_double :: "fpu \<Rightarrow> real \<Rightarrow> bool" where
  "is_double fp x = (rounded fp x = x \<and> \<bar>x\<bar> \<le> largest fp)"

definition in_bounds :: "real \<Rightarrow> real \<Rightarrow> double \<Rightarrow> bool" where
  "in_bounds lo hi a = (case a of Finite x \<Rightarrow> lo \<le> x \<and> x \<le> hi | _ \<Rightarrow> False)"

section \<open>The player and the rendering surface\<close>

text \<open>
  \<open>PlayerState\<close>, as both variants declare it; App.tsx adds \<open>isProtected\<close>. The
  position and the duration are doubles. The volume is only stored and compared,
  never computed with, and is kept as a real. \<open>blobUrl\<close> is the object URL of the
  fetched bytes; the model identifies an object URL with its number in the registry
  below.
\<close>

record player_state =
  url :: jsstring
  fileName :: jsstring
  isPlaying :: bool
  currentTime :: double
  duration :: double
  volume :: real
  isMuted :: bool
  isFullscreen :: bool
  showControls :: bool
  blobUrl :: "nat option"

record protected_player_state = player_state +
  isProtected :: bool

text \<open>
  The video element behind \<open>videoRef\<close>: its \<open>src\<close> attribute (\<open>None\<close> when the attribute
  is absent, so that the \<open>src\<close> property reads as the empty string), its \<open>paused\<close> flag
  and its volume. The element keeps its own playback position and reports it through
  \<open>timeupdate\<close>.
\<close>

record video_element =
  el_src :: "nat option"
  el_paused :: bool
  el_volume :: real

text \<open>
  The part of the component's state that the playback handlers of both variants work
  on: the \<open>player\<close> state variable, the mounted video element (\<open>videoRef.current\<close>; the
  container behind \<open>playerRef\<close> is rendered and removed together with it),
  \<open>document.fullscreenElement\<close> being set, the pending timeout of
  \<open>controlsTimeoutRef\<close> (its delay and the value of \<open>player.isPlaying\<close> its callback
  closed over), and the browser's registry of object URLs: those created, in order,
  and the calls of \<open>URL.revokeObjectURL\<close>, in order.
\<close>

record 'p surface =
  player :: "'p option"
  video :: "video_element option"
  fullscreenElement :: bool
  controlsTimeout :: "(nat \<times> bool) option"
  objectUrls :: "nat list"
  revocations :: "nat list"

definition createObjectURL :: "('p, 'z) surface_scheme \<Rightarrow> nat \<times> ('p, 'z) surface_scheme" where
  "createObjectURL s =
     (let h = length (objectUrls s) in (h, s\<lparr>objectUrls := objectUrls s @ [h]\<rparr>))"

definition revokeObjectURL :: "nat \<Rightarrow> ('p, 'z) surface_scheme \<Rightarrow> ('p, 'z) surface_scheme" where
  "revokeObjectURL h s = s\<lparr>revocations := revocations s @ [h]\<rparr>"


text \<open>
  The setter of the element's \<open>volume\<close> throws \<open>IndexSizeError\<close> outside \<open>[0, 1]\<close>
  (HTML standard). In the handlers below a call that can throw comes before the first
  update of the state, and nothing catches the exception: a handler that throws
  (\<open>Inl\<close>) leaves the state as it was.
\<close>

definition set_el_volume :: "real \<Rightarrow> video_element \<Rightarrow> exn + video_element" where
  "set_el_volume v el =
     (if 0 \<le> v \<and> v \<le> 1 then Inr (el\<lparr>el_volume := v\<rparr>) else Inl (Platform IndexSizeError))"

text \<open>
  \<open>showControls\<close>: the guard and the timeout's callback read the \<open>player\<close> of the
  render the handler belongs to (the first argument); the update is functional.
\<close>

definition showControls_fn ::
  "'m player_state_scheme option \<Rightarrow> ('m player_state_scheme, 'z) surface_scheme
   \<Rightarrow> ('m player_state_scheme, 'z) surface_scheme" where
  "showControls_fn cl s =
     (case cl of
        None \<Rightarrow> s
      | Some p \<Rightarrow>
          s\<lparr>player := map_option (\<lambda>prev. prev\<lparr>showControls := True\<rparr>) (player s),
            controlsTimeout := Some (3000, isPlaying p)\<rparr>)"

text \<open>
  The \<open>onMouseLeave\<close> handler of the player's container, which is rendered only while
  there is a player: the timeout is started again, with a shorter delay.
\<close>

definition onMouseLeave ::
  "('m player_state_scheme, 'z) surface_scheme \<Rightarrow> ('m player_state_scheme, 'z) surface_scheme" where
  "onMouseLeave s =
     (case player s of
        None \<Rightarrow> s
      | Some p \<Rightarrow> s\<lparr>controlsTimeout := Some (1000, isPlaying p)\<rparr>)"

text \<open>The callback of the timeout.\<close>

definition controls_timeout_fired ::
  "('m player_state_scheme, 'z) surface_scheme \<Rightarrow> ('m player_state_scheme, 'z) surface_scheme" where
  "controls_timeout_fired s =
     (case controlsTimeout s of
        None \<Rightarrow> s
      | Some (delay, playing) \<Rightarrow>
          (if playing
           then s\<lparr>player := map_option (\<lambda>prev. prev\<lparr>showControls := False\<rparr>) (player s),
                  controlsTimeout := None\<rparr>
           else s\<lparr>controlsTimeout := None\<rparr>))"

definition togglePlayPause ::
  "('m player_state_scheme, 'z) surface_scheme \<Rightarrow> ('m player_state_scheme, 'z) surface_scheme" where
  "togglePlayPause s =
     (case (video s, player s) of
        (Some el, Some p) \<Rightarrow>
          (let el' =
             (if isPlaying p then el\<lparr>el_paused := True\<rparr>
              else (if el_src el = None \<and> blobUrl p \<noteq> None then el\<lparr>el_src := blobUrl p\<rparr> else el)
                     \<lparr>el_paused := False\<rparr>)
           in showControls_fn (player s)
                (s\<lparr>video := Some el',
                   player := map_option (\<lambda>prev. prev\<lparr>isPlaying := \<not> isPlaying prev\<rparr>) (player s)\<rparr>))
      | _ \<Rightarrow> s)"

definition toggleMute ::
  "('m player_state_scheme, 'z) surface_scheme
   \<Rightarrow> exn + ('m player_state_scheme, 'z) surface_scheme" where
  "toggleMute s =
     (case (video s, player s) of
        (Some el, Some p) \<Rightarrow>
          (if isMuted p then
             (case set_el_volume (volume p) el of
                Inl e \<Rightarrow> Inl e
              | Inr el' \<Rightarrow>
                  Inr (showControls_fn (player s)
                    (s\<lparr>video := Some el',
                       player := map_option (\<lambda>prev. prev\<lparr>isMuted := False\<rparr>) (player s)\<rparr>)))
           else
             (case set_el_volume 0 el of
                Inl e \<Rightarrow> Inl e
              | Inr el' \<Rightarrow>
                  Inr (showControls_fn (player s)
                    (s\<lparr>video := Some el',
                       player := map_option (\<lambda>prev. prev\<lparr>isMuted := True\<rparr>) (player s)\<rparr>))))
      | _ \<Rightarrow> Inr s)"

text \<open>\<open>newVolume\<close> is \<open>parseFloat(e.target.value)\<close>, the value of the range input.\<close>

definition handleVolumeChange ::
  "real \<Rightarrow> ('m player_state_scheme, 'z) surface_scheme
   \<Rightarrow> exn + ('m player_state_scheme, 'z) surface_scheme" where
  "handleVolumeChange newVolume s =
     (case (video s, player s) of
        (Some el, Some p) \<Rightarrow>
          (case set_el_volume newVolume el of
             Inl e \<Rightarrow> Inl e
           | Inr el' \<Rightarrow>
               Inr (showControls_fn (player s)
                 (s\<lparr>video := Some el',
                    player := map_option
                      (\<lambda>prev. prev\<lparr>volume := newVolume, isMuted := (newVolume = 0)\<rparr>) (player s)\<rparr>)))
      | _ \<Rightarrow> Inr s)"

text \<open>
  \<open>handleSeek\<close> gets a click on the progress bar: \<open>clientX\<close> and the left edge and the
  width of the bar's bounding rectangle. The setter of \<open>currentTime\<close> refuses a value
  that is not finite with \<open>TypeError\<close>, before the state is updated.
\<close>

definition handleSeek ::
  "fpu \<Rightarrow> double \<Rightarrow> double \<Rightarrow> double \<Rightarrow> ('m player_state_scheme, 'z) surface_scheme
   \<Rightarrow> exn + ('m player_state_scheme, 'z) surface_scheme" where
  "handleSeek fp clientX rect_left rect_width s =
     (case (video s, player s) of
        (Some el, Some p) \<Rightarrow>
          (let percent = fdiv fp (fsub fp clientX rect_left) rect_width;
               newTime = fmul fp percent (duration p)
           in if \<not> is_finite newTime then Inl (Platform TypeError)
              else Inr (showControls_fn (player s)
                     (s\<lparr>player := map_option (\<lambda>prev. prev\<lparr>currentTime := newTime\<rparr>) (player s)\<rparr>)))
      | _ \<Rightarrow> Inr s)"

text \<open>
  \<open>toggleFullscreen\<close>; \<open>granted\<close> tells whether the browser fulfils the request (a
  rejection is caught and logged).
\<close>

definition toggleFullscreen ::
  "bool \<Rightarrow> ('m player_state_scheme, 'z) surface_scheme
   \<Rightarrow> ('m player_state_scheme, 'z) surface_scheme" where
  "toggleFullscreen granted s =
     (case video s of
        None \<Rightarrow> s
      | Some el \<Rightarrow>
          showControls_fn (player s)
            (if \<not> granted then s
             else if \<not> fullscreenElement s then
               s\<lparr>fullscreenElement := True,
                 player := map_option (\<lambda>prev. prev\<lparr>isFullscreen := True\<rparr>) (player s)\<rparr>
             else
               s\<lparr>fullscreenElement := False,
                 player := map_option (\<lambda>prev. prev\<lparr>isFullscreen := False\<rparr>) (player s)\<rparr>))"

text \<open>
  \<open>handleTimeUpdate\<close> reads the element's position and duration. \<open>|| 0\<close> turns a
  duration that is NaN or zero into 0 and lets every other one through, the infinite
  duration of unbounded media too.
\<close>

definition handleTimeUpdate ::
  "double \<Rightarrow> double \<Rightarrow> ('m player_state_scheme, 'z) surface_scheme
   \<Rightarrow> ('m player_state_scheme, 'z) surface_scheme" where
  "handleTimeUpdate el_time el_duration s =
     (case (video s, player s) of
        (Some el, Some p) \<Rightarrow>
          s\<lparr>player := map_option
              (\<lambda>prev. prev\<lparr>currentTime := el_time,
                            duration := (if el_duration = NaN \<or> el_duration = Finite 0
                                         then Finite 0 else el_duration)\<rparr>)
              (player s)\<rparr>
      | _ \<Rightarrow> s)"

text \<open>
  The element a render leaves behind once \<open>player\<close> holds the object URL \<open>h\<close>: a new
  element is paused at full volume; an element that was there gets the new \<open>src\<close>, which
  pauses it, and keeps its volume.
\<close>

definition render_video :: "nat \<Rightarrow> video_element option \<Rightarrow> video_element" where
  "render_video h old =
     (case old of
        None \<Rightarrow> \<lparr>el_src = Some h, el_paused = True, el_volume = 1\<rparr>
      | Some el \<Rightarrow> el\<lparr>el_src := Some h, el_paused := True\<rparr>)"

text \<open>The outcome of \<open>fetch\<close> followed by \<open>response.blob()\<close>.\<close>

datatype fetch_outcome = Fetched | NotOk nat | Rejected

section \<open>The browsing context\<close>

text \<open>
  What the handlers read from the browser: \<open>window.location.hostname\<close>,
  \<open>document.referrer\<close>, the page's address as base and query parameters
  (\<open>window.location.href\<close>, \<open>window.location.search\<close>), the two strings that
  \<open>generateToken\<close> draws from \<open>Math.random\<close> and \<open>Date.now\<close>, the clock, and the
  platform's \<open>decodeURIComponent\<close> (\<open>None\<close> when it throws \<open>URIError\<close>).
\<close>

record href =
  base :: jsstring
  searchParams :: "(jsstring \<times> jsstring) list"

record env =
  hostname :: jsstring
  referrer :: jsstring
  location :: href
  random36 :: jsstring
  now36 :: jsstring
  now :: nat
  decodeURIComponent :: "jsstring \<Rightarrow> jsstring option"

text \<open>\<open>URLSearchParams.get\<close> gives the first value of a name, or null.\<close>

definition params_get :: "jsstring \<Rightarrow> (jsstring \<times> jsstring) list \<Rightarrow> jsstring option" where
  "params_get name ps = map_of ps name"

text \<open>
  \<open>URLSearchParams.set\<close> overwrites the first pair of the name and removes the others,
  or appends a pair.
\<close>

fun set_first :: "jsstring \<Rightarrow> jsstring \<Rightarrow> (jsstring \<times> jsstring) list
  \<Rightarrow> (jsstring \<times> jsstring) list" where
  "set_first name v [] = []"
| "set_first name v ((k, x) # ps) =
     (if k = name then (k, v) # filter (\<lambda>kv. fst kv \<noteq> name) ps
      else (k, x) # set_first name v ps)"

definition params_set :: "jsstring \<Rightarrow> jsstring \<Rightarrow> (jsstring \<times> jsstring) list
  \<Rightarrow> (jsstring \<times> jsstring) list" where
  "params_set name v ps =
     (if name \<in> fst ` set ps then set_first name v ps else ps @ [(name, v)])"

text \<open>
  \<open>url.split('/')\<close>, its last part, and \<open>split('?')[0]\<close> of that.
\<close>

definition last_part :: "jsstring \<Rightarrow> jsstring" where
  "last_part u = rev (takeWhile (\<lambda>c. c \<noteq> 47) (rev u))"

definition before_query :: "jsstring \<Rightarrow> jsstring" where
  "before_query u = takeWhile (\<lambda>c. c \<noteq> 63) u"

section \<open>App.tsx: the protected player\<close>

record securityConfig =
  allowedDomains :: "jsstring list"
  allowedReferrers :: "jsstring list"
  enableDomainCheck :: bool
  enableReferrerCheck :: bool
  enableRightClickProtection :: bool
  enableDevToolsProtection :: bool
  enableCopyProtection :: bool

text \<open>
  The state of the component; \<open>url_input\<close> is the state variable \<open>url\<close> (the text of the
  input field), renamed apart from the field \<open>url\<close> of the player.
\<close>

record protected_app = "protected_player_state surface" +
  url_input :: jsstring
  error :: message
  isLoading :: bool
  showSecuritySettings :: bool
  config :: securityConfig

definition initial_config :: securityConfig where
  "initial_config =
     \<lparr>allowedDomains = [js ''localhost'', js ''127.0.0.1''],
      allowedReferrers = [],
      enableDomainCheck = False,
      enableReferrerCheck = False,
      enableRightClickProtection = True,
      enableDevToolsProtection = True,
      enableCopyProtection = True\<rparr>"

definition initial_protected_app :: protected_app where
  "initial_protected_app =
     \<lparr>player = None, video = None, fullscreenElement = False, controlsTimeout = None,
      objectUrls = [], revocations = [],
      url_input = [], error = NoMessage, isLoading = False, showSecuritySettings = False,
      config = initial_config\<rparr>"

definition checkDomainSecurity :: "securityConfig \<Rightarrow> env \<Rightarrow> bool" where
  "checkDomainSecurity cfg e =
     (if \<not> enableDomainCheck cfg then True
      else hostname e \<in> set (allowedDomains cfg))"

definition checkReferrerSecurity :: "securityConfig \<Rightarrow> env \<Rightarrow> bool" where
  "checkReferrerSecurity cfg e =
     (if \<not> enableReferrerCheck cfg then True
      else if referrer e = [] \<and> length (allowedReferrers cfg) > 0 then False
      else list_ex (\<lambda>allowed. startsWith (referrer e) allowed) (allowedReferrers cfg))"

text \<open>
  \<open>isValidDirectLink\<close> tests the regular expression
  \<^verbatim>\<open>/\.(mp3|mp4|wav|ogg|webm|flac|m4a|avi|mov)$/i\<close>: the string ends, up to the case
  of letters, in a dot and one of the nine alternatives.
\<close>

definition directLinkExtensions :: "jsstring list" where
  "directLinkExtensions =
     map js [''mp3'', ''mp4'', ''wav'', ''ogg'', ''webm'', ''flac'', ''m4a'', ''avi'', ''mov'']"

definition isValidDirectLink :: "jsstring \<Rightarrow> bool" where
  "isValidDirectLink u =
     list_ex (\<lambda>alt. suffix (map canonicalize (46 # alt)) (map canonicalize u))
       directLinkExtensions"

definition extractFileName :: "env \<Rightarrow> jsstring \<Rightarrow> jsstring option" where
  "extractFileName e u = decodeURIComponent e (before_query (last_part u))"

text \<open>
  The locator \<open>handleLoadMedia\<close> works with (its variable \<open>decodedUrl\<close>): the input as it
  is when it holds \<open>http\<close>, otherwise its decoding, and the input again when decoding
  throws.
\<close>

definition decodedUrl :: "jsstring \<Rightarrow> jsstring" where
  "decodedUrl u =
     (if includes_str u (js ''http'') then u
      else (case decodeUrl u of Inl ex \<Rightarrow> u | Inr d \<Rightarrow> d))"

text \<open>What a suspended load keeps across its \<open>await\<close>.\<close>

record pending =
  p_url :: jsstring
  p_fileName :: jsstring

text \<open>
  \<open>createProtectedBlob\<close>: any failure of the fetch is rethrown as one error; success
  registers an object URL.
\<close>

definition createProtectedBlob ::
  "fetch_outcome \<Rightarrow> ('p, 'z) surface_scheme \<Rightarrow> exn + (nat \<times> ('p, 'z) surface_scheme)" where
  "createProtectedBlob r s =
     (case r of
        Fetched \<Rightarrow> Inr (createObjectURL s)
      | _ \<Rightarrow> Inl (Error ErroBlobProtegido))"

text \<open>
  \<open>handleLoadMedia\<close> up to its \<open>await\<close>: the new state, and what is pending when the
  fetch has been started. \<open>extractFileName\<close> runs inside the \<open>try\<close>, after
  \<open>setIsLoading(true)\<close>; when it throws, the \<open>catch\<close> and the \<open>finally\<close> run at once.
\<close>

definition handleLoadMedia :: "env \<Rightarrow> protected_app \<Rightarrow> protected_app \<times> pending option" where
  "handleLoadMedia e s =
     (let s0 = s\<lparr>error := NoMessage\<rparr> in
      if trim (url_input s) = [] then (s0\<lparr>error := InsiraUrl\<rparr>, None)
      else if \<not> checkDomainSecurity (config s) e then (s0\<lparr>error := DominioNaoAutorizado\<rparr>, None)
      else if \<not> checkReferrerSecurity (config s) e then (s0\<lparr>error := ReferrerNaoAutorizado\<rparr>, None)
      else
        (let d = decodedUrl (url_input s) in
         if \<not> isValidDirectLink d then (s0\<lparr>error := LinkDiretoInvalido\<rparr>, None)
         else
           (case extractFileName e d of
              None \<Rightarrow> (s0\<lparr>error := PlatformMessage URIError, isLoading := False\<rparr>, None)
            | Some name \<Rightarrow> (s0\<lparr>isLoading := True\<rparr>, Some \<lparr>p_url = d, p_fileName = name\<rparr>))))"

text \<open>The rest of \<open>handleLoadMedia\<close>, run when the fetch settles.\<close>

definition handleLoadMedia_resume ::
  "fetch_outcome \<Rightarrow> pending \<Rightarrow> protected_app \<Rightarrow> protected_app" where
  "handleLoadMedia_resume r pd s =
     (case createProtectedBlob r s of
        Inl ex \<Rightarrow> s\<lparr>error := exn_message ex, isLoading := False\<rparr>
      | Inr (h, s1) \<Rightarrow>
          s1\<lparr>player := Some
                \<lparr>url = p_url pd, fileName = p_fileName pd, isPlaying = False,
                 currentTime = Finite 0, duration = Finite 0, volume = 1, isMuted = False,
                 isFullscreen = False, showControls = True, blobUrl = Some h,
                 isProtected = True\<rparr>,
             video := Some (render_video h (video s1)),
             isLoading := False\<rparr>)"

text \<open>
  The two ways to ask for a load: the button, which is disabled while \<open>isLoading\<close>
  holds, and the Enter key in the input field.
\<close>

definition click_load_button :: "env \<Rightarrow> protected_app \<Rightarrow> protected_app \<times> pending option" where
  "click_load_button e s = (if isLoading s then (s, None) else handleLoadMedia e s)"

definition handleKeyPress ::
  "jsstring \<Rightarrow> env \<Rightarrow> protected_app \<Rightarrow> protected_app \<times> pending option" where
  "handleKeyPress key e s = (if key = js ''Enter'' then handleLoadMedia e s else (s, None))"

text \<open>
  What happens to the protected player when loads are asked for through the button
  only: the user types into the input field or clicks the button, and a fetch that is
  pending settles. The fetches that are pending are kept next to the state, the oldest
  first.
\<close>

datatype button_event = Typed jsstring | Clicked | Settled fetch_outcome

fun button_step ::
  "env \<Rightarrow> protected_app \<times> pending list \<Rightarrow> button_event \<Rightarrow> protected_app \<times> pending list" where
  "button_step e (s, ps) (Typed u) = (s\<lparr>url_input := u\<rparr>, ps)"
| "button_step e (s, ps) Clicked =
     (case click_load_button e s of
        (s1, None) \<Rightarrow> (s1, ps)
      | (s1, Some pd) \<Rightarrow> (s1, ps @ [pd]))"
| "button_step e (s, []) (Settled r) = (s, [])"
| "button_step e (s, pd # ps) (Settled r) = (handleLoadMedia_resume r pd s, ps)"

text \<open>
  At most one fetch is pending, and \<open>isLoading\<close> is set exactly while one is.
\<close>

definition one_in_flight :: "protected_app \<times> pending list \<Rightarrow> bool" where
  "one_in_flight c = ((isLoading (fst c) \<longleftrightarrow> snd c \<noteq> []) \<and> length (snd c) \<le> 1)"

text \<open>
  \<open>handleBeforeUnload\<close>, registered again after every change of \<open>player\<close>, and the
  cleanup of the effect with no dependencies, which closes over the \<open>player\<close> of the
  first render.
\<close>

definition handleBeforeUnload :: "protected_app \<Rightarrow> protected_app" where
  "handleBeforeUnload s =
     (case player s of
        None \<Rightarrow> s
      | Some p \<Rightarrow> (case blobUrl p of None \<Rightarrow> s | Some h \<Rightarrow> revokeObjectURL h s))"

definition unmount_cleanup ::
  "'m player_state_scheme option \<Rightarrow> ('m player_state_scheme, 'z) surface_scheme
   \<Rightarrow> ('m player_state_scheme, 'z) surface_scheme" where
  "unmount_cleanup first_player s =
     (case first_player of
        None \<Rightarrow> s
      | Some p \<Rightarrow> (case blobUrl p of None \<Rightarrow> s | Some h \<Rightarrow> revokeObjectURL h s))"

text \<open>
  The callback of the timeout that a \<open>pause\<close> event starts: a paused element of a
  protected player loses its \<open>src\<close> attribute.
\<close>

definition pause_timeout_protected :: "protected_player_state \<Rightarrow> protected_app \<Rightarrow> protected_app" where
  "pause_timeout_protected p s =
     (case video s of
        None \<Rightarrow> s
      | Some el \<Rightarrow>
          (if el_paused el \<and> isProtected p then s\<lparr>video := Some (el\<lparr>el_src := None\<rparr>)\<rparr> else s))"


section \<open>The shareable player (the second variant)\<close>

record shareableLink =
  link_token :: jsstring
  link_url :: href
  createdAt :: nat

text \<open>
  The state of the component. Its \<open>error\<close> and \<open>isLoading\<close> are named \<open>share_error\<close> and
  \<open>share_isLoading\<close> here, apart from those of the protected player; the fields of
  \<open>ShareableLink\<close> are \<open>link_token\<close> and \<open>link_url\<close>, the link being kept as the page's
  address with its query parameters rather than as its serialisation.
\<close>

record share_app = "player_state surface" +
  mediaUrl :: jsstring
  share_error :: message
  success :: message
  share_isLoading :: bool
  shareableLink :: "shareableLink option"
  showShareSection :: bool

definition initial_share_app :: share_app where
  "initial_share_app =
     \<lparr>player = None, video = None, fullscreenElement = False, controlsTimeout = None,
      objectUrls = [], revocations = [],
      mediaUrl = [], share_error = NoMessage, success = NoMessage, share_isLoading = False,
      shareableLink = None, showShareSection = False\<rparr>"

definition generateToken :: "env \<Rightarrow> jsstring" where
  "generateToken e = js ''token-'' @ random36 e @ js ''-'' @ now36 e"

definition validExtensions :: "jsstring list" where
  "validExtensions =
     map js [''.mp4'', ''.mp3'', ''.webm'', ''.avi'', ''.mov'', ''.mkv'', ''.flv'', ''.wmv'',
             ''.m4v'']"

definition isValidMediaUrl :: "jsstring \<Rightarrow> bool" where
  "isValidMediaUrl u =
     (list_ex (\<lambda>ext. includes_str (toLowerCase u) ext) validExtensions \<and>
      (includes_str u (js ''mediafire.com'') \<or> includes_str u (js ''drive.google.com'')
       \<or> startsWith u (js ''http'')))"

text \<open>The default name is "Midia sem nome", its second letter being U+00ED.\<close>

definition extractFileName_share :: "env \<Rightarrow> jsstring \<Rightarrow> jsstring option" where
  "extractFileName_share e u =
     (case decodeURIComponent e (before_query (last_part u)) of
        None \<Rightarrow> None
      | Some name \<Rightarrow> Some (if name = [] then js ''M'' @ [237] @ js ''dia sem nome'' else name))"

text \<open>
  \<open>createProtectedBlob\<close> of this variant differs from the other in its message.
\<close>

definition createProtectedBlob_share ::
  "fetch_outcome \<Rightarrow> ('p, 'z) surface_scheme \<Rightarrow> exn + (nat \<times> ('p, 'z) surface_scheme)" where
  "createProtectedBlob_share r s =
     (case r of
        Fetched \<Rightarrow> Inr (createObjectURL s)
      | _ \<Rightarrow> Inl (Error ErroCarregarMidia))"

record share_pending =
  sp_url :: jsstring
  sp_fileName :: jsstring
  sp_existingToken :: "jsstring option"

text \<open>\<open>loadMediaFromUrl\<close> up to its \<open>await\<close>.\<close>

definition loadMediaFromUrl ::
  "env \<Rightarrow> jsstring \<Rightarrow> jsstring option \<Rightarrow> share_app \<Rightarrow> share_app \<times> share_pending option" where
  "loadMediaFromUrl e u existingToken s =
     (let s0 = s\<lparr>share_error := NoMessage, success := NoMessage\<rparr> in
      if trim u = [] then (s0\<lparr>share_error := InsiraUrlValido\<rparr>, None)
      else if \<not> isValidMediaUrl u then (s0\<lparr>share_error := UrlInvalido\<rparr>, None)
      else
        (case extractFileName_share e u of
           None \<Rightarrow> (s0\<lparr>share_error := PlatformMessage URIError, share_isLoading := False\<rparr>, None)
         | Some name \<Rightarrow>
             (s0\<lparr>share_isLoading := True\<rparr>,
              Some \<lparr>sp_url = u, sp_fileName = name, sp_existingToken = existingToken\<rparr>)))"

text \<open>
  The rest of \<open>loadMediaFromUrl\<close>. \<open>setPlayer\<close> comes before the share link is built,
  so when \<open>btoa\<close> throws the player stays and the exception's message is shown. An
  existing token that is the empty string is falsy, and a token is generated.
\<close>

definition loadMediaFromUrl_resume ::
  "env \<Rightarrow> fetch_outcome \<Rightarrow> share_pending \<Rightarrow> share_app \<Rightarrow> share_app" where
  "loadMediaFromUrl_resume e r pd s =
     (case createProtectedBlob_share r s of
        Inl ex \<Rightarrow> s\<lparr>share_error := exn_message ex, share_isLoading := False\<rparr>
      | Inr (h, s1) \<Rightarrow>
          (let s2 = s1\<lparr>player := Some
                         \<lparr>url = sp_url pd, fileName = sp_fileName pd, isPlaying = False,
                          currentTime = Finite 0, duration = Finite 0, volume = 1, isMuted = False,
                          isFullscreen = False, showControls = True, blobUrl = Some h\<rparr>,
                       video := Some (render_video h (video s1))\<rparr>;
               token = (case sp_existingToken pd of
                          None \<Rightarrow> generateToken e
                        | Some t \<Rightarrow> if t = [] then generateToken e else t)
           in case btoa (sp_url pd) of
                None \<Rightarrow>
                  s2\<lparr>share_error := PlatformMessage InvalidCharacterError,
                     share_isLoading := False\<rparr>
              | Some media \<Rightarrow>
                  s2\<lparr>shareableLink := Some
                        \<lparr>link_token = token,
                         link_url = (location e)
                           \<lparr>searchParams :=
                              params_set (js ''media'') media
                                (params_set (js ''token'') token (searchParams (location e)))\<rparr>,
                         createdAt = now e\<rparr>,
                     showShareSection := True,
                     success := PlayerCarregado,
                     share_isLoading := False\<rparr>))"

definition handleGeneratePlayer :: "env \<Rightarrow> share_app \<Rightarrow> share_app \<times> share_pending option" where
  "handleGeneratePlayer e s = loadMediaFromUrl e (mediaUrl s) None s"

definition click_generate_button :: "env \<Rightarrow> share_app \<Rightarrow> share_app \<times> share_pending option" where
  "click_generate_button e s = (if share_isLoading s then (s, None) else handleGeneratePlayer e s)"

definition handleKeyPress_share ::
  "jsstring \<Rightarrow> env \<Rightarrow> share_app \<Rightarrow> share_app \<times> share_pending option" where
  "handleKeyPress_share key e s =
     (if key = js ''Enter'' then handleGeneratePlayer e s else (s, None))"

text \<open>The same for the shareable player.\<close>

fun share_button_step ::
  "env \<Rightarrow> share_app \<times> share_pending list \<Rightarrow> button_event
   \<Rightarrow> share_app \<times> share_pending list" where
  "share_button_step e (s, ps) (Typed u) = (s\<lparr>mediaUrl := u\<rparr>, ps)"
| "share_button_step e (s, ps) Clicked =
     (case click_generate_button e s of
        (s1, None) \<Rightarrow> (s1, ps)
      | (s1, Some pd) \<Rightarrow> (s1, ps @ [pd]))"
| "share_button_step e (s, []) (Settled r) = (s, [])"
| "share_button_step e (s, pd # ps) (Settled r) = (loadMediaFromUrl_resume e r pd s, ps)"

text \<open>
  The effect that runs once on mount: with a non-empty \<open>token\<close> and a non-empty \<open>media\<close>
  among the query parameters, \<open>media\<close> is decoded and loaded under that token.
\<close>

definition restore_on_mount :: "env \<Rightarrow> share_app \<Rightarrow> share_app \<times> share_pending option" where
  "restore_on_mount e s =
     (case (params_get (js ''token'') (searchParams (location e)),
            params_get (js ''media'') (searchParams (location e))) of
        (Some token, Some media) \<Rightarrow>
          (if token \<noteq> [] \<and> media \<noteq> [] then
             (case atob media of
                None \<Rightarrow> (s\<lparr>share_error := LinkCompartilhadoInvalido\<rparr>, None)
              | Some d \<Rightarrow> loadMediaFromUrl e d (Some token) (s\<lparr>mediaUrl := d\<rparr>))
           else (s, None))
      | _ \<Rightarrow> (s, None))"

text \<open>
  A started load of the shareable player once its fetch has settled; a load that was
  not started leaves the state it returned.
\<close>

text \<open>
  The shareable player once it is mounted, with the fetch that the effect may have
  started; and the same property of its pending fetches.
\<close>

definition share_mounted :: "env \<Rightarrow> share_app \<times> share_pending list" where
  "share_mounted e =
     (case restore_on_mount e initial_share_app of
        (s, None) \<Rightarrow> (s, [])
      | (s, Some pd) \<Rightarrow> (s, [pd]))"

definition share_one_in_flight :: "share_app \<times> share_pending list \<Rightarrow> bool" where
  "share_one_in_flight c =
     ((share_isLoading (fst c) \<longleftrightarrow> snd c \<noteq> []) \<and> length (snd c) \<le> 1)"


definition pause_timeout_share :: "share_app \<Rightarrow> share_app" where
  "pause_timeout_share s =
     (case video s of
        None \<Rightarrow> s
      | Some el \<Rightarrow> (if el_paused el then s\<lparr>video := Some (el\<lparr>el_src := None\<rparr>)\<rparr> else s))"

section \<open>Example contexts and inputs\<close>

text \<open>
  A browsing context for the examples below: the page is served from \<open>b.com\<close>, with no
  referrer and no query. Its \<open>decodeURIComponent\<close> is the platform's on the strings the
  examples use: a string without a percent sign decodes to itself.
\<close>

definition example_env :: env where
  "example_env =
     \<lparr>hostname = js ''b.com'', referrer = [],
      location = \<lparr>base = js ''https://b.com/'', searchParams = []\<rparr>,
      random36 = js ''k3x9q2m1z'', now36 = js ''lzq0abcd'', now = 0,
      decodeURIComponent = (\<lambda>s. if 37 \<in> set s then None else Some s)\<rparr>"

definition video_url :: jsstring where
  "video_url = js ''https://host/video.mp4''"

definition video_token :: jsstring where
  "video_token = js ''aHR0cHM6Ly9ob3N0L3ZpZGVvLm1wNA==''"

text \<open>The protected player with the example locator typed into its input field.\<close>

definition typed_app :: protected_app where
  "typed_app = initial_protected_app\<lparr>url_input := video_url\<rparr>"

text \<open>The same, while its fetch is in flight, and once the fetch has succeeded.\<close>

definition loading_app :: protected_app where
  "loading_app = fst (handleLoadMedia example_env typed_app)"

definition loaded_app :: protected_app where
  "loaded_app =
     handleLoadMedia_resume Fetched \<lparr>p_url = video_url, p_fileName = js ''video.mp4''\<rparr>
       loading_app"

text \<open>What a handler's result says about the player: a field of it.\<close>

definition player_field ::
  "('p \<Rightarrow> 'a) \<Rightarrow> exn + ('p, 'z) surface_scheme \<Rightarrow> exn + 'a option" where
  "player_field f r = map_sum id (\<lambda>s. map_option f (player s)) r"

text \<open>
  One handler after another; an exception that leaves a handler ends the run.
\<close>

definition and_then :: "exn + 'a \<Rightarrow> ('a \<Rightarrow> exn + 'b) \<Rightarrow> exn + 'b" where
  "and_then r f = (case r of Inl ex \<Rightarrow> Inl ex | Inr s \<Rightarrow> f s)"

text \<open>A policy that allows the domain \<open>a.com\<close> only, and the input typed under it.\<close>

definition a_com_config :: securityConfig where
  "a_com_config = initial_config\<lparr>allowedDomains := [js ''a.com''], enableDomainCheck := True\<rparr>"

definition typed_app_a_com :: protected_app where
  "typed_app_a_com = typed_app\<lparr>config := a_com_config\<rparr>"

text \<open>
  An arithmetic unit that rounds nothing, with the largest finite double of binary64.
  It agrees with binary64 wherever the exact result of an operation is a double, as it
  is in every example below.
\<close>

definition exact_fpu :: fpu where
  "exact_fpu = \<lparr>rounded = (\<lambda>r. r), largest = (2 - 1 / 2 ^ 52) * 2 ^ 1023\<rparr>"

text \<open>
  The loaded example once its metadata is there, at position 0 of 120 seconds; at the
  end of playback, at 120 of 120; and for unbounded media, whose duration is infinite.
  Then a second locator.
\<close>

definition at_start_120 :: protected_app where
  "at_start_120 = handleTimeUpdate (Finite 0) (Finite 120) loaded_app"

definition at_end_120 :: protected_app where
  "at_end_120 = handleTimeUpdate (Finite 120) (Finite 120) loaded_app"

definition unbounded_app :: protected_app where
  "unbounded_app = handleTimeUpdate (Finite 0) PosInf loaded_app"

definition b_url :: jsstring where
  "b_url = js ''https://host/b.mp4''"

text \<open>
  Locators on which the checks of the code and the wording of the specification part:
  an extension in the middle, a bare file name, and two extensions that only one of the
  variants knows.
\<close>

definition exe_url :: jsstring where
  "exe_url = js ''http://h/a.mp4.exe''"

definition bare_name :: jsstring where
  "bare_name = js ''video.mp4''"

definition mkv_url :: jsstring where
  "mkv_url = js ''http://h/a.mkv''"

definition wav_url :: jsstring where
  "wav_url = js ''http://h/a.wav''"

text \<open>
  A page opened through a share link: the query holds the token \<open>token-abc\<close> and the
  encoded example locator.
\<close>

definition shared_env :: env where
  "shared_env =
     example_env\<lparr>location :=
       \<lparr>base = js ''https://b.com/'',
        searchParams = [(js ''token'', js ''token-abc''), (js ''media'', video_token)]\<rparr>\<rparr>"

text \<open>The shareable player while the fetch of the example locator is in flight.\<close>

definition share_loading_app :: share_app where
  "share_loading_app =
     fst (handleGeneratePlayer example_env (initial_share_app\<lparr>mediaUrl := video_url\<rparr>))"

text \<open>
  The shareable player with the example locator typed, and the share link that its
  load builds on the example page.
\<close>

definition typed_share_app :: share_app where
  "typed_share_app = initial_share_app\<lparr>mediaUrl := video_url\<rparr>"





section \<open>The locator check as the specification words it\<close>

text \<open>
  The specification's validity of a locator, for comparison with the two checks of the
  code: the path (the locator up to its query or fragment) ends, up to case, in a dot
  and one of thirteen extensions, and the locator begins with the transport scheme the
  code knows or has the shape of one of the two hosting services it knows.
\<close>

definition supportedExtensions :: "jsstring list" where
  "supportedExtensions =
     map js [''mp4'', ''mp3'', ''webm'', ''avi'', ''mov'', ''mkv'', ''flv'', ''wmv'', ''m4v'',
             ''wav'', ''ogg'', ''flac'', ''m4a'']"

definition locator_path :: "jsstring \<Rightarrow> jsstring" where
  "locator_path u = takeWhile (\<lambda>c. c \<noteq> 63 \<and> c \<noteq> 35) u"

definition spec_locator_valid :: "jsstring \<Rightarrow> bool" where
  "spec_locator_valid u =
     (list_ex (\<lambda>ext. suffix (map canonicalize (46 # ext)) (map canonicalize (locator_path u)))
        supportedExtensions
      \<and> (startsWith u (js ''http'') \<or> includes_str u (js ''mediafire.com'')
         \<or> includes_str u (js ''drive.google.com'')))"

section \<open>Auxiliary functions of the proofs\<close>

text \<open>
  The sextets that \<open>b64_encode\<close> writes for a list of bytes, before they are turned
  into characters, and the number of \<open>=\<close> that follow them.
\<close>

fun sextets :: "nat list \<Rightarrow> nat list" where
  "sextets (a # b # c # rest) =
     [a div 4, (a mod 4) * 16 + b div 16, (b mod 16) * 4 + c div 64, c mod 64] @ sextets rest"
| "sextets [a, b] = [a div 4, (a mod 4) * 16 + b div 16, (b mod 16) * 4]"
| "sextets [a] = [a div 4, (a mod 4) * 16]"
| "sextets [] = []"

fun npad :: "nat list \<Rightarrow> nat" where
  "npad (a # b # c # rest) = npad rest"
| "npad [a, b] = 1"
| "npad [a] = 2"
| "npad [] = 0"

section \<open>Token codec: the round trip\<close>

lemma b64_encode_split:
  "b64_encode xs = map b64_char (sextets xs) @ replicate (npad xs) 61"
  by (induction xs rule: b64_encode.induct) (simp_all add: numeral_2_eq_2)

lemma div4_bound: "(a::nat) < 256 \<Longrightarrow> a div 4 < 64"
  by (simp add: less_mult_imp_div_less)

lemma div16_bound: "(b::nat) < 256 \<Longrightarrow> b div 16 < 16"
  by (simp add: less_mult_imp_div_less)

lemma div64_bound: "(c::nat) < 256 \<Longrightarrow> c div 64 < 4"
  by (simp add: less_mult_imp_div_less)

lemma sextet2_bound: "(b::nat) < 256 \<Longrightarrow> (a mod 4) * 16 + b div 16 < 64"
proof -
  assume "b < 256"
  then have "b div 16 < 16" by (rule div16_bound)
  moreover have "a mod 4 < 4" by simp
  ultimately show ?thesis by linarith
qed

lemma sextet3_bound: "(c::nat) < 256 \<Longrightarrow> (b mod 16) * 4 + c div 64 < 64"
proof -
  assume "c < 256"
  then have "c div 64 < 4" by (rule div64_bound)
  moreover have "b mod 16 < 16" by simp
  ultimately show ?thesis by linarith
qed

lemma sextet3_short_bound: "(b mod 16) * 4 < (64::nat)"
proof -
  have "b mod 16 < 16" by simp
  then show ?thesis by linarith
qed

lemma sextet2_short_bound: "(a mod 4) * 16 < (64::nat)"
proof -
  have "a mod 4 < 4" by simp
  then show ?thesis by linarith
qed

lemma sextets_bound:
  "list_all (\<lambda>c. c < 256) xs \<Longrightarrow> list_all (\<lambda>n. n < 64) (sextets xs)"
proof (induction xs rule: sextets.induct)
  case (1 a b c rest)
  then show ?case by (simp add: div4_bound sextet2_bound sextet3_bound)
next
  case (2 a b)
  then show ?case by (simp add: div4_bound sextet2_bound sextet3_short_bound)
next
  case (3 a)
  then show ?case by (simp add: div4_bound sextet2_short_bound)
qed simp

lemma byte1_back: "(b::nat) < 256 \<Longrightarrow> a div 4 * 4 + ((a mod 4) * 16 + b div 16) div 16 = a"
  by (simp add: div16_bound)

lemma byte2_back:
  "(b::nat) < 256 \<Longrightarrow> (c::nat) < 256 \<Longrightarrow>
   (((a mod 4) * 16 + b div 16) mod 16) * 16 + ((b mod 16) * 4 + c div 64) div 4 = b"
  by (simp add: div64_bound div16_bound)

lemma byte3_back:
  "(c::nat) < 256 \<Longrightarrow> (((b mod 16) * 4 + c div 64) mod 4) * 64 + c mod 64 = c"
  by (simp add: div64_bound)

lemma byte2_short_back:
  "(b::nat) < 256 \<Longrightarrow> (((a mod 4) * 16 + b div 16) mod 16) * 16 + ((b mod 16) * 4) div 4 = b"
  by (simp add: div16_bound)

lemma byte1_short_back: "a div 4 * 4 + ((a mod 4) * 16) div 16 = (a::nat)"
  by simp

lemma b64_decode_sextets:
  "list_all (\<lambda>c. c < 256) xs \<Longrightarrow> b64_decode (sextets xs) = xs"
proof (induction xs rule: sextets.induct)
  case (1 a b c rest)
  then have "a < 256" "b < 256" "c < 256" "b64_decode (sextets rest) = rest"
    by simp_all
  then show ?case
    by (simp only: sextets.simps b64_decode.simps append_Cons append_Nil
        byte1_back byte2_back byte3_back)
next
  case (2 a b)
  then have "a < 256" "b < 256" by simp_all
  then show ?case
    by (simp only: sextets.simps b64_decode.simps byte1_back byte2_short_back)
next
  case (3 a)
  show ?case
    by (simp only: sextets.simps b64_decode.simps byte1_short_back)
qed simp

lemma sextets_length: "length (sextets xs) mod 4 \<noteq> 1"
  by (induction xs rule: sextets.induct) simp_all

lemma b64_encode_length: "length (b64_encode xs) mod 4 = 0"
  by (induction xs rule: b64_encode.induct) simp_all

lemma b64_index_char: "n < 64 \<Longrightarrow> b64_index (b64_char n) = Some n"
  by (auto simp: b64_index_def b64_char_def)

lemma b64_char_plain:
  "n < 64 \<Longrightarrow> b64_char n \<noteq> 61 \<and> \<not> is_ascii_whitespace (b64_char n)"
  by (auto simp: b64_char_def is_ascii_whitespace_def)

lemma those_index_chars:
  "list_all (\<lambda>n. n < 64) sx \<Longrightarrow> those (map b64_index (map b64_char sx)) = Some sx"
  by (induction sx) (simp_all add: b64_index_char)

lemma filter_encoded:
  assumes "list_all (\<lambda>n. n < 64) sx"
  shows "filter (\<lambda>c. \<not> is_ascii_whitespace c) (map b64_char sx @ replicate k 61)
         = map b64_char sx @ replicate k 61"
proof -
  have "\<forall>c \<in> set (map b64_char sx @ replicate k 61). \<not> is_ascii_whitespace c"
    using assms b64_char_plain by (auto simp: list_all_iff is_ascii_whitespace_def)
  then show ?thesis by (simp only: filter_True)
qed

lemma npad_cases: "npad xs = 0 \<or> npad xs = 1 \<or> npad xs = 2"
  by (induction xs rule: npad.induct) simp_all

lemma last_not_pad:
  assumes "list_all (\<lambda>n. n < 64) sx"
  shows "\<not> suffix [61] (map b64_char sx)"
proof
  assume "suffix [61] (map b64_char sx)"
  then obtain zs where "map b64_char sx = zs @ [61]"
    unfolding suffix_def by blast
  then have "61 \<in> set (map b64_char sx)"
    by (simp only: set_append list.set Un_iff insert_iff simp_thms)
  then show False using assms b64_char_plain by (auto simp: list_all_iff)
qed

lemma suffix_two_one: "suffix [a, b] xs \<Longrightarrow> suffix [b] xs"
proof -
  assume "suffix [a, b] xs"
  then obtain ps where "xs = ps @ [a, b]" by (auto simp: suffix_def)
  then have "xs = (ps @ [a]) @ [b]" by simp
  then show ?thesis unfolding suffix_def by blast
qed

lemma suffix_two_snoc: "suffix [a, b] (xs @ [c]) \<Longrightarrow> suffix [a] xs"
proof -
  assume "suffix [a, b] (xs @ [c])"
  then obtain ps where "xs @ [c] = ps @ [a, b]" by (auto simp: suffix_def)
  then have "xs @ [c] = (ps @ [a]) @ [b]" by simp
  then have "xs = ps @ [a]" by (simp only: append1_eq_conv)
  then show ?thesis unfolding suffix_def by blast
qed

lemma strip_padding_encoded:
  assumes sx: "list_all (\<lambda>n. n < 64) sx" and k: "k = 0 \<or> k = 1 \<or> k = 2"
    and len: "length (map b64_char sx @ replicate k 61) mod 4 = 0"
  shows "strip_padding (map b64_char sx @ replicate k 61) = map b64_char sx"
proof -
  let ?m = "map b64_char sx"
  have n1: "\<not> suffix [61] ?m" using sx by (rule last_not_pad)
  have n2: "\<not> suffix [61, 61] ?m"
  proof
    assume "suffix [61, 61] ?m"
    then have "suffix [61] ?m" by (rule suffix_two_one)
    with n1 show False by simp
  qed
  from k consider "k = 0" | "k = 1" | "k = 2" by blast
  then show ?thesis
  proof cases
    case 1
    with n1 n2 len show ?thesis by (simp add: strip_padding_def)
  next
    case 2
    have "\<not> suffix [61, 61] (?m @ [61])"
    proof
      assume "suffix [61, 61] (?m @ [61])"
      then have "suffix [61] ?m" by (rule suffix_two_snoc)
      with n1 show False by simp
    qed
    with 2 len show ?thesis by (simp add: strip_padding_def)
  next
    case 3
    then have r: "replicate k (61::nat) = [61, 61]" by (simp add: numeral_2_eq_2)
    have "suffix [61, 61] (?m @ [61, 61])" by (rule suffixI) simp
    with r len show ?thesis by (simp add: strip_padding_def)
  qed
qed

lemma atob_b64_encode:
  assumes "list_all (\<lambda>c. c < 256) x"
  shows "atob (b64_encode x) = Some x"
proof -
  let ?sx = "sextets x"
  have sx: "list_all (\<lambda>n. n < 64) ?sx" using assms by (rule sextets_bound)
  have enc: "b64_encode x = map b64_char ?sx @ replicate (npad x) 61"
    by (rule b64_encode_split)
  have len: "length (map b64_char ?sx @ replicate (npad x) 61) mod 4 = 0"
    using b64_encode_length [of x] enc by simp
  have strip: "strip_padding (filter (\<lambda>c. \<not> is_ascii_whitespace c) (b64_encode x))
               = map b64_char ?sx"
    using filter_encoded [OF sx] strip_padding_encoded [OF sx npad_cases len] enc by simp
  show ?thesis
    using strip sextets_length [of x] those_index_chars [OF sx] b64_decode_sextets [OF assms]
    by (simp add: atob_def)
qed

section \<open>The example states, evaluated\<close>

lemma video_url_units: "video_url = [104,116,116,112,115,58,47,47,104,111,115,116,47,118,105,100,101,111,46,109,112,52]"
  by (simp add: video_url_def js_def)

lemma handleLoadMedia_typed:
  "handleLoadMedia example_env typed_app =
     (typed_app\<lparr>isLoading := True\<rparr>, Some \<lparr>p_url = video_url, p_fileName = js ''video.mp4''\<rparr>)"
  by (simp add: handleLoadMedia_def typed_app_def initial_protected_app_def initial_config_def
      example_env_def video_url_units trim_def is_js_whitespace_def checkDomainSecurity_def
      checkReferrerSecurity_def decodedUrl_def includes_str_def sublist_code js_def
      isValidDirectLink_def directLinkExtensions_def canonicalize_def suffix_to_prefix
      extractFileName_def last_part_def before_query_def)

lemma loading_app_eq: "loading_app = typed_app\<lparr>isLoading := True\<rparr>"
  by (simp add: loading_app_def handleLoadMedia_typed)

lemma loaded_app_eq:
  "loaded_app =
     \<lparr>player = Some
        \<lparr>url = video_url, fileName = js ''video.mp4'', isPlaying = False,
         currentTime = Finite 0, duration = Finite 0, volume = 1, isMuted = False,
         isFullscreen = False, showControls = True, blobUrl = Some 0, isProtected = True\<rparr>,
      video = Some \<lparr>el_src = Some 0, el_paused = True, el_volume = 1\<rparr>,
      fullscreenElement = False, controlsTimeout = None,
      objectUrls = [0], revocations = [],
      url_input = video_url, error = NoMessage, isLoading = False,
      showSecuritySettings = False, config = initial_config\<rparr>"
  by (simp add: loaded_app_def loading_app_eq typed_app_def initial_protected_app_def
      handleLoadMedia_resume_def createProtectedBlob_def createObjectURL_def render_video_def
      Let_def)

lemma b_url_units: "b_url = [104,116,116,112,115,58,47,47,104,111,115,116,47,98,46,109,112,52]"
  by (simp add: b_url_def js_def)

lemma handleLoadMedia_b:
  "url_input s = b_url \<Longrightarrow> config s = initial_config \<Longrightarrow>
   handleLoadMedia example_env s =
     (s\<lparr>error := NoMessage, isLoading := True\<rparr>, Some \<lparr>p_url = b_url, p_fileName = js ''b.mp4''\<rparr>)"
  by (simp add: handleLoadMedia_def initial_config_def
      example_env_def b_url_units trim_def is_js_whitespace_def checkDomainSecurity_def
      checkReferrerSecurity_def decodedUrl_def includes_str_def sublist_code js_def
      isValidDirectLink_def directLinkExtensions_def canonicalize_def suffix_to_prefix
      extractFileName_def last_part_def before_query_def)



lemma exe_url_units: "exe_url = [104,116,116,112,58,47,47,104,47,97,46,109,112,52,46,101,120,101]"
  by (simp add: exe_url_def js_def)

lemma bare_name_units: "bare_name = [118,105,100,101,111,46,109,112,52]"
  by (simp add: bare_name_def js_def)

lemma mkv_url_units: "mkv_url = [104,116,116,112,58,47,47,104,47,97,46,109,107,118]"
  by (simp add: mkv_url_def js_def)

lemma wav_url_units: "wav_url = [104,116,116,112,58,47,47,104,47,97,46,119,97,118]"
  by (simp add: wav_url_def js_def)

lemmas string_eval = js_def includes_str_def startsWith_def toLowerCase_def lower_unit_def
  canonicalize_def sublist_code suffix_to_prefix trim_def is_js_whitespace_def
  last_part_def before_query_def locator_path_def Let_def

lemma exe_url_facts:
  "\<not> spec_locator_valid exe_url"
  "loadMediaFromUrl example_env exe_url None initial_share_app
     = (initial_share_app\<lparr>share_isLoading := True\<rparr>,
        Some \<lparr>sp_url = exe_url, sp_fileName = js ''a.mp4.exe'', sp_existingToken = None\<rparr>)"
  by (simp_all add: spec_locator_valid_def supportedExtensions_def loadMediaFromUrl_def
      isValidMediaUrl_def validExtensions_def extractFileName_share_def example_env_def
      initial_share_app_def exe_url_units string_eval)

lemma bare_name_facts:
  "\<not> spec_locator_valid bare_name"
  "handleLoadMedia example_env (initial_protected_app\<lparr>url_input := bare_name\<rparr>)
     = (initial_protected_app\<lparr>url_input := bare_name, isLoading := True\<rparr>,
        Some \<lparr>p_url = bare_name, p_fileName = bare_name\<rparr>)"
  by (simp_all add: spec_locator_valid_def supportedExtensions_def handleLoadMedia_def
      isValidDirectLink_def directLinkExtensions_def extractFileName_def example_env_def
      initial_protected_app_def initial_config_def checkDomainSecurity_def
      checkReferrerSecurity_def decodedUrl_def decodeUrl_def atob_def strip_padding_def
      is_ascii_whitespace_def b64_index_def bare_name_units string_eval)

lemma mkv_url_facts:
  "spec_locator_valid mkv_url"
  "trim mkv_url \<noteq> []"
  "\<not> isValidDirectLink (decodedUrl mkv_url)"
  "handleLoadMedia example_env (initial_protected_app\<lparr>url_input := mkv_url\<rparr>)
     = (initial_protected_app\<lparr>url_input := mkv_url, error := LinkDiretoInvalido\<rparr>, None)"
  by (simp_all add: spec_locator_valid_def supportedExtensions_def handleLoadMedia_def
      isValidDirectLink_def directLinkExtensions_def extractFileName_def example_env_def
      initial_protected_app_def initial_config_def checkDomainSecurity_def
      checkReferrerSecurity_def decodedUrl_def mkv_url_units string_eval)

lemma wav_url_facts:
  "spec_locator_valid wav_url"
  "trim wav_url \<noteq> []"
  "\<not> isValidMediaUrl wav_url"
  "loadMediaFromUrl example_env wav_url None initial_share_app
     = (initial_share_app\<lparr>share_error := UrlInvalido\<rparr>, None)"
  by (simp_all add: spec_locator_valid_def supportedExtensions_def loadMediaFromUrl_def
      isValidMediaUrl_def validExtensions_def extractFileName_share_def example_env_def
      initial_share_app_def wav_url_units string_eval)

lemma loading_app_fields:
  "url_input (loading_app\<lparr>url_input := b_url\<rparr>) = b_url"
  "config (loading_app\<lparr>url_input := b_url\<rparr>) = initial_config"
  "isLoading loading_app" "error loading_app = NoMessage"
  by (simp_all add: loading_app_eq typed_app_def initial_protected_app_def)

lemma isValidMediaUrl_dot: "isValidMediaUrl u \<Longrightarrow> 46 \<in> set u"
proof -
  assume "isValidMediaUrl u"
  then obtain ext where e: "ext \<in> set validExtensions" "sublist ext (toLowerCase u)"
    by (auto simp: isValidMediaUrl_def list_ex_iff includes_str_def)
  from e(1) have "46 \<in> set ext" by (auto simp: validExtensions_def js_def)
  with e(2) have "46 \<in> set (toLowerCase u)" using set_mono_sublist by blast
  then obtain c where "c \<in> set u" "46 \<in> set (lower_unit c)"
    by (auto simp: toLowerCase_def)
  then show ?thesis by (auto simp: lower_unit_def split: if_splits)
qed

lemma dropWhile_keeps:
  "c \<in> set xs \<Longrightarrow> \<not> P c \<Longrightarrow> c \<in> set (dropWhile P xs)"
  by (induction xs) auto

lemma member_nonempty: "c \<in> set xs \<Longrightarrow> xs \<noteq> []"
  by auto

lemma trim_nonblank: "c \<in> set u \<Longrightarrow> \<not> is_js_whitespace c \<Longrightarrow> trim u \<noteq> []"
proof -
  assume c: "c \<in> set u" "\<not> is_js_whitespace c"
  then have "c \<in> set (rev (dropWhile is_js_whitespace u))"
    by (simp add: dropWhile_keeps)
  then have "c \<in> set (dropWhile is_js_whitespace (rev (dropWhile is_js_whitespace u)))"
    using c(2) by (rule dropWhile_keeps)
  then have "dropWhile is_js_whitespace (rev (dropWhile is_js_whitespace u)) \<noteq> []"
    by (rule member_nonempty)
  then show ?thesis unfolding trim_def by (simp only: rev_is_Nil_conv not_False_eq_True)
qed

lemma isValidMediaUrl_nonblank: "isValidMediaUrl u \<Longrightarrow> trim u \<noteq> []"
  using isValidMediaUrl_dot [of u] trim_nonblank [of 46 u]
  by (simp add: is_js_whitespace_def)

lemma video_url_valid: "isValidMediaUrl video_url"
  by (simp add: isValidMediaUrl_def video_url_units validExtensions_def js_def
      includes_str_def startsWith_def toLowerCase_def lower_unit_def sublist_code)

lemma video_url_name:
  "decodeURIComponent example_env (before_query (last_part video_url)) = Some (js ''video.mp4'')"
  "decodeURIComponent shared_env (before_query (last_part video_url)) = Some (js ''video.mp4'')"
  by (simp_all add: example_env_def shared_env_def video_url_units last_part_def
      before_query_def js_def)



section \<open>Token codec: what \<open>encodeUrl\<close> accepts and what comes back\<close>

text \<open>
  C2, as the code has it. For every locator whose code units are all below 256
  (Latin-1, which holds every ASCII URL), \<open>encodeUrl\<close> does not fail, and \<open>decodeUrl\<close>
  of its result is the locator again; the same holds of \<open>btoa\<close> and \<open>atob\<close>, which the
  second variant calls directly. On every locator with a code unit above 255,
  \<open>encodeUrl\<close> throws \<open>InvalidCharacterError\<close>.
\<close>

theorem token_codec_roundtrip_latin1:
  "(list_all (\<lambda>c. c < 256) x \<longrightarrow>
      encodeUrl x = Inr (b64_encode x) \<and> decodeUrl (b64_encode x) = Inr x
      \<and> btoa x = Some (b64_encode x) \<and> atob (b64_encode x) = Some x)
   \<and> (\<not> list_all (\<lambda>c. c < 256) x \<longrightarrow>
      encodeUrl x = Inl (Platform InvalidCharacterError) \<and> btoa x = None)"
  using atob_b64_encode [of x] by (simp add: encodeUrl_def decodeUrl_def btoa_def)

text \<open>The example locator, and a locator that holds U+20AC.\<close>

theorem token_codec_roundtrip_latin1_witness:
  "list_all (\<lambda>c. c < 256) (js ''https://host/video.mp4'')
   \<and> encodeUrl (js ''https://host/video.mp4'') = Inr (js ''aHR0cHM6Ly9ob3N0L3ZpZGVvLm1wNA=='')
   \<and> decodeUrl (js ''aHR0cHM6Ly9ob3N0L3ZpZGVvLm1wNA=='') = Inr (js ''https://host/video.mp4'')
   \<and> \<not> list_all (\<lambda>c. c < 256) (js ''http://h/'' @ [8364] @ js ''.mp4'')
   \<and> encodeUrl (js ''http://h/'' @ [8364] @ js ''.mp4'') = Inl (Platform InvalidCharacterError)"
proof -
  have h: "list_all (\<lambda>c. c < 256) (js ''https://host/video.mp4'')"
    by (simp add: js_def)
  have e: "b64_encode (js ''https://host/video.mp4'') = js ''aHR0cHM6Ly9ob3N0L3ZpZGVvLm1wNA==''"
    by (simp add: js_def b64_char_def)
  have n: "\<not> list_all (\<lambda>c. c < 256) (js ''http://h/'' @ [8364] @ js ''.mp4'')"
    by (simp add: js_def)
  show ?thesis
    using h e n token_codec_roundtrip_latin1 [of "js ''https://host/video.mp4''"]
      token_codec_roundtrip_latin1 [of "js ''http://h/'' @ [8364] @ js ''.mp4''"]
    by simp
qed

text \<open>
  The claim as stated fails on a locator that both validity checks of the program
  accept: a code unit above 255 (here U+20AC) makes \<open>encodeUrl\<close> throw.
\<close>

theorem token_codec_total_counterexample:
  "isValidMediaUrl (js ''http://h/'' @ [8364] @ js ''.mp4'')
   \<and> isValidDirectLink (js ''http://h/'' @ [8364] @ js ''.mp4'')
   \<and> encodeUrl (js ''http://h/'' @ [8364] @ js ''.mp4'') = Inl (Platform InvalidCharacterError)
   \<and> btoa (js ''http://h/'' @ [8364] @ js ''.mp4'') = None"
  by (simp add: isValidMediaUrl_def isValidDirectLink_def encodeUrl_def btoa_def js_def
      validExtensions_def directLinkExtensions_def includes_str_def startsWith_def
      toLowerCase_def lower_unit_def canonicalize_def sublist_code suffix_to_prefix)

section \<open>Access gate: the domain check\<close>

text \<open>
  C7. With \<open>enableDomainCheck\<close> off the domain check passes for every host; with it on,
  it passes exactly when the host of the page is among \<open>allowedDomains\<close>. A load whose
  input is not blank and whose domain check fails ends with the message of a domain
  that is not authorised, and starts no fetch.
\<close>

theorem domain_check:
  "(\<not> enableDomainCheck cfg \<longrightarrow> checkDomainSecurity cfg e)
   \<and> (enableDomainCheck cfg \<longrightarrow>
        (checkDomainSecurity cfg e \<longleftrightarrow> hostname e \<in> set (allowedDomains cfg)))
   \<and> (trim (url_input s) \<noteq> [] \<and> \<not> checkDomainSecurity (config s) e \<longrightarrow>
        handleLoadMedia e s = (s\<lparr>error := DominioNaoAutorizado\<rparr>, None))"
  by (simp add: checkDomainSecurity_def handleLoadMedia_def)

text \<open>
  With only \<open>a.com\<close> allowed, a page on \<open>b.com\<close> is denied; with the check off, it
  passes.
\<close>

theorem domain_check_witness:
  "\<not> enableDomainCheck initial_config \<and> checkDomainSecurity initial_config example_env
   \<and> enableDomainCheck a_com_config
   \<and> hostname example_env = js ''b.com'' \<and> allowedDomains a_com_config = [js ''a.com'']
   \<and> \<not> checkDomainSecurity a_com_config example_env
   \<and> trim (url_input typed_app_a_com) \<noteq> []
   \<and> handleLoadMedia example_env typed_app_a_com
       = (typed_app_a_com\<lparr>error := DominioNaoAutorizado\<rparr>, None)"
proof -
  have off: "\<not> enableDomainCheck initial_config" by (simp add: initial_config_def)
  have on: "enableDomainCheck a_com_config" by (simp add: a_com_config_def)
  have host: "hostname example_env = js ''b.com''" by (simp add: example_env_def)
  have doms: "allowedDomains a_com_config = [js ''a.com'']" by (simp add: a_com_config_def)
  have out: "hostname example_env \<notin> set (allowedDomains a_com_config)"
    by (simp add: host doms js_def)
  have typed: "trim (url_input typed_app_a_com) \<noteq> []"
    by (simp add: typed_app_a_com_def typed_app_def video_url_units trim_def is_js_whitespace_def)
  have cfg: "config typed_app_a_com = a_com_config" by (simp add: typed_app_a_com_def)
  show ?thesis
    using off on host doms out typed cfg
      domain_check [of initial_config example_env typed_app_a_com]
      domain_check [of a_com_config example_env typed_app_a_com]
    by simp
qed

section \<open>Token or URL: how the loader decides\<close>

lemma b64_encode_longer: "xs \<noteq> [] \<Longrightarrow> length xs < length (b64_encode xs)"
proof (induction xs rule: b64_encode.induct)
  case (1 a b c rest)
  then show ?case by (cases "rest = []") simp_all
qed simp_all

lemma b64_encode_differs: "includes_str (b64_encode xs) (js ''http'') \<Longrightarrow> b64_encode xs \<noteq> xs"
proof -
  assume h: "includes_str (b64_encode xs) (js ''http'')"
  have "xs \<noteq> []"
  proof
    assume "xs = []"
    with h show False by (simp add: includes_str_def js_def)
  qed
  then have "length xs < length (b64_encode xs)" by (rule b64_encode_longer)
  then show ?thesis by auto
qed

text \<open>
  C10. \<open>handleLoadMedia\<close> takes an input that holds \<open>http\<close> anywhere as the locator, as
  it is; only an input without \<open>http\<close> is decoded (and used as it is when decoding
  throws). So a token whose base64 text holds \<open>http\<close> is taken as a raw URL: the locator
  is the token's text, not the string it encodes. The locator of a started load is the
  one this dispatch gives.
\<close>

theorem decode_dispatch:
  "(includes_str u (js ''http'') \<longrightarrow> decodedUrl u = u)
   \<and> (\<not> includes_str u (js ''http'') \<longrightarrow>
        decodedUrl u = (case atob u of None \<Rightarrow> u | Some d \<Rightarrow> d))
   \<and> (btoa x = Some u \<and> includes_str u (js ''http'') \<longrightarrow> decodedUrl u = u \<and> decodedUrl u \<noteq> x)
   \<and> (snd (handleLoadMedia e s) = Some pd \<longrightarrow> p_url pd = decodedUrl (url_input s))"
proof -
  have a: "includes_str u (js ''http'') \<longrightarrow> decodedUrl u = u"
    by (simp add: decodedUrl_def)
  have b: "\<not> includes_str u (js ''http'') \<longrightarrow>
        decodedUrl u = (case atob u of None \<Rightarrow> u | Some d \<Rightarrow> d)"
    by (simp add: decodedUrl_def decodeUrl_def split: option.splits)
  have c: "btoa x = Some u \<and> includes_str u (js ''http'') \<longrightarrow> decodedUrl u = u \<and> decodedUrl u \<noteq> x"
  proof (intro impI, elim conjE)
    assume bx: "btoa x = Some u" and inc: "includes_str u (js ''http'')"
    from bx have u: "u = b64_encode x" by (simp add: btoa_def split: if_splits)
    with inc have "b64_encode x \<noteq> x" using b64_encode_differs by simp
    with u a inc show "decodedUrl u = u \<and> decodedUrl u \<noteq> x" by simp
  qed
  have d: "snd (handleLoadMedia e s) = Some pd \<longrightarrow> p_url pd = decodedUrl (url_input s)"
    by (auto simp: handleLoadMedia_def Let_def split: if_splits option.splits)
  from a b c d show ?thesis by blast
qed

text \<open>
  The bytes 134, 219, 105 followed by \<open>.mp4\<close> encode to \<open>httpLm1wNA==\<close>, which is
  taken as it is; the token of the example URL holds no \<open>http\<close> and is decoded; and the
  load of the example input works on the typed URL.
\<close>

theorem decode_dispatch_witness:
  "includes_str (js ''httpLm1wNA=='') (js ''http'')
   \<and> btoa ([134, 219, 105] @ js ''.mp4'') = Some (js ''httpLm1wNA=='')
   \<and> decodedUrl (js ''httpLm1wNA=='') = js ''httpLm1wNA==''
   \<and> decodedUrl (js ''httpLm1wNA=='') \<noteq> [134, 219, 105] @ js ''.mp4''
   \<and> \<not> includes_str video_token (js ''http'')
   \<and> atob video_token = Some video_url
   \<and> decodedUrl video_token = video_url
   \<and> snd (handleLoadMedia example_env typed_app)
       = Some \<lparr>p_url = video_url, p_fileName = js ''video.mp4''\<rparr>
   \<and> decodedUrl (url_input typed_app) = video_url"
proof -
  have inc: "includes_str (js ''httpLm1wNA=='') (js ''http'')"
    by (simp add: includes_str_def js_def sublist_code)
  have enc: "btoa ([134, 219, 105] @ js ''.mp4'') = Some (js ''httpLm1wNA=='')"
    by (simp add: btoa_def js_def b64_char_def)
  have ninc: "\<not> includes_str video_token (js ''http'')"
    by (simp add: includes_str_def video_token_def js_def sublist_code)
  have dec: "atob video_token = Some video_url"
    by (simp add: atob_def video_token_def video_url_def js_def is_ascii_whitespace_def
        strip_padding_def suffix_to_prefix b64_index_def)
  have started: "snd (handleLoadMedia example_env typed_app)
       = Some \<lparr>p_url = video_url, p_fileName = js ''video.mp4''\<rparr>"
    by (simp add: handleLoadMedia_typed)
  show ?thesis
    using inc enc ninc dec started
      decode_dispatch [where u = "js ''httpLm1wNA==''" and x = "[134, 219, 105] @ js ''.mp4''"
        and e = example_env and s = typed_app
        and pd = "\<lparr>p_url = video_url, p_fileName = js ''video.mp4''\<rparr>"]
      decode_dispatch [where u = video_token and x = video_url
        and e = example_env and s = typed_app
        and pd = "\<lparr>p_url = video_url, p_fileName = js ''video.mp4''\<rparr>"]
    by auto
qed

section \<open>Playback controls without a session\<close>

text \<open>
  C6, as the code has it. With no player or no mounted video element, \<open>togglePlayPause\<close>,
  \<open>toggleMute\<close>, \<open>handleVolumeChange\<close> and \<open>handleSeek\<close> return at their guard: the state
  is what it was and nothing is thrown or reported; \<open>toggleFullscreen\<close> does the same
  when nothing is mounted. Revoking the object URL when the page unloads leaves the
  player and the element in place.
\<close>

theorem controls_without_session:
  "(player s = None \<or> video s = None \<longrightarrow>
      togglePlayPause s = s \<and> toggleMute s = Inr s \<and> handleVolumeChange v s = Inr s
      \<and> handleSeek fp x l w s = Inr s)
   \<and> (video s = None \<longrightarrow> toggleFullscreen g s = s)
   \<and> player (handleBeforeUnload t) = player t \<and> video (handleBeforeUnload t) = video t"
  by (auto simp: togglePlayPause_def toggleMute_def handleVolumeChange_def handleSeek_def
      toggleFullscreen_def handleBeforeUnload_def revokeObjectURL_def
      split: option.splits)

text \<open>The shareable player before any load.\<close>

theorem controls_without_session_witness:
  "player initial_share_app = None \<and> video initial_share_app = None
   \<and> togglePlayPause initial_share_app = initial_share_app
   \<and> toggleMute initial_share_app = Inr initial_share_app
   \<and> handleVolumeChange (1/2) initial_share_app = Inr initial_share_app
   \<and> handleSeek exact_fpu (Finite 10) (Finite 0) (Finite 100) initial_share_app = Inr initial_share_app
   \<and> toggleFullscreen True initial_share_app = initial_share_app"
proof -
  have p: "player initial_share_app = None" by (simp add: initial_share_app_def)
  have v: "video initial_share_app = None" by (simp add: initial_share_app_def)
  show ?thesis
    using p v controls_without_session [where s = initial_share_app and v = "1/2" and fp = exact_fpu
      and x = "Finite 10" and l = "Finite 0" and w = "Finite 100" and g = True]
    by simp
qed

text \<open>
  The claim as stated fails: without a session every control returns normally, with the
  state unchanged, instead of failing; and after the object URL of a loaded session has
  been revoked, \<open>togglePlayPause\<close> still starts playback.
\<close>

theorem controls_without_session_counterexample:
  "toggleMute initial_protected_app = Inr initial_protected_app
   \<and> handleVolumeChange (1/2) initial_protected_app = Inr initial_protected_app
   \<and> handleSeek exact_fpu (Finite 10) (Finite 0) (Finite 100) initial_protected_app = Inr initial_protected_app
   \<and> togglePlayPause initial_protected_app = initial_protected_app
   \<and> toggleFullscreen True initial_protected_app = initial_protected_app
   \<and> revocations (handleBeforeUnload loaded_app) = [0]
   \<and> player_field isPlaying (Inr (togglePlayPause (handleBeforeUnload loaded_app))) = Inr (Some True)"
  by (simp add: togglePlayPause_def toggleMute_def handleVolumeChange_def handleSeek_def
      toggleFullscreen_def initial_protected_app_def handleBeforeUnload_def loaded_app_eq
      revokeObjectURL_def player_field_def showControls_fn_def)

section \<open>Volume and mute\<close>

text \<open>
  C3, as the code has it. On an active session, a volume outside \<open>[0, 1]\<close> is refused by
  the element's setter (\<open>IndexSizeError\<close>, before any update of the state); the handler
  itself checks nothing. A volume \<open>v\<close> within the range is stored, and \<open>isMuted\<close> becomes
  \<open>v = 0\<close>. So a volume of 0 is stored as the volume: \<open>toggleMute\<close> after it clears
  \<open>isMuted\<close> and leaves the volume at 0.
\<close>

theorem volume_change_and_unmute:
  assumes "video s = Some el" and "player s = Some p"
  shows "(\<not> (0 \<le> v \<and> v \<le> 1) \<longrightarrow> handleVolumeChange v s = Inl (Platform IndexSizeError))
   \<and> (0 \<le> v \<and> v \<le> 1 \<longrightarrow>
        player_field volume (handleVolumeChange v s) = Inr (Some v)
        \<and> player_field isMuted (handleVolumeChange v s) = Inr (Some (v = 0)))
   \<and> player_field volume (and_then (handleVolumeChange 0 s) toggleMute) = Inr (Some 0)
   \<and> player_field isMuted (and_then (handleVolumeChange 0 s) toggleMute) = Inr (Some False)"
  using assms
  by (simp add: handleVolumeChange_def toggleMute_def set_el_volume_def player_field_def
      and_then_def showControls_fn_def)

text \<open>The loaded example, at the volumes 3/2, 4/5 and 0.\<close>

theorem volume_change_and_unmute_witness:
  "video loaded_app = Some \<lparr>el_src = Some 0, el_paused = True, el_volume = 1\<rparr>
   \<and> handleVolumeChange (3/2) loaded_app = Inl (Platform IndexSizeError)
   \<and> player_field volume (handleVolumeChange (4/5) loaded_app) = Inr (Some (4/5))
   \<and> player_field isMuted (handleVolumeChange (4/5) loaded_app) = Inr (Some False)
   \<and> player_field isMuted (handleVolumeChange 0 loaded_app) = Inr (Some True)
   \<and> player_field volume (and_then (handleVolumeChange 0 loaded_app) toggleMute) = Inr (Some 0)"
proof -
  have v: "video loaded_app = Some \<lparr>el_src = Some 0, el_paused = True, el_volume = 1\<rparr>"
    by (simp add: loaded_app_eq)
  have p: "player loaded_app = Some
     \<lparr>url = video_url, fileName = js ''video.mp4'', isPlaying = False,
      currentTime = Finite 0, duration = Finite 0, volume = 1, isMuted = False,
      isFullscreen = False, showControls = True, blobUrl = Some 0, isProtected = True\<rparr>"
    by (simp add: loaded_app_eq)
  show ?thesis
    using v volume_change_and_unmute [OF v p, of "3/2"] volume_change_and_unmute [OF v p, of "4/5"]
      volume_change_and_unmute [OF v p, of 0]
    by simp
qed

text \<open>
  The claim as stated fails: after the volume 4/5, then the volume 0, \<open>toggleMute\<close>
  gives an unmuted player at volume 0, not at 4/5.
\<close>

theorem unmute_restores_counterexample:
  "player_field volume (handleVolumeChange (4/5) loaded_app) = Inr (Some (4/5))
   \<and> player_field isMuted
        (and_then (handleVolumeChange (4/5) loaded_app) (handleVolumeChange 0)) = Inr (Some True)
   \<and> player_field volume
        (and_then (and_then (handleVolumeChange (4/5) loaded_app) (handleVolumeChange 0)) toggleMute)
       = Inr (Some 0)
   \<and> player_field isMuted
        (and_then (and_then (handleVolumeChange (4/5) loaded_app) (handleVolumeChange 0)) toggleMute)
       = Inr (Some False)"
  by (simp add: loaded_app_eq handleVolumeChange_def toggleMute_def set_el_volume_def
      player_field_def and_then_def showControls_fn_def)

section \<open>Seeking\<close>

lemma to_double_finite:
  "- largest fp \<le> rounded fp r \<Longrightarrow> rounded fp r \<le> largest fp \<Longrightarrow>
     to_double fp r = Finite (rounded fp r)"
  by (simp add: to_double_def Let_def)

lemma rounded_between:
  assumes m: "mono (rounded fp)" and lo: "rounded fp a = a" and hi: "rounded fp b = b"
    and r: "a \<le> r" "r \<le> b"
  shows "a \<le> rounded fp r \<and> rounded fp r \<le> b"
proof -
  have "rounded fp a \<le> rounded fp r" using m r(1) by (rule monoD)
  moreover have "rounded fp r \<le> rounded fp b" using m r(2) by (rule monoD)
  ultimately show ?thesis using lo hi by simp
qed

lemma to_double_between:
  assumes m: "mono (rounded fp)" and z: "is_double fp 0" and b: "is_double fp b"
    and r: "0 \<le> r" "r \<le> b"
  shows "to_double fp r = Finite (rounded fp r) \<and> 0 \<le> rounded fp r \<and> rounded fp r \<le> b"
proof -
  from z b have fx: "rounded fp 0 = 0" "rounded fp b = b" and lim: "\<bar>b\<bar> \<le> largest fp"
    by (simp_all add: is_double_def)
  from rounded_between [OF m fx r] have rb: "0 \<le> rounded fp r" "rounded fp r \<le> b"
    by simp_all
  from rb lim have "- largest fp \<le> rounded fp r" "rounded fp r \<le> largest fp" by linarith+
  then have "to_double fp r = Finite (rounded fp r)" by (rule to_double_finite)
  with rb show ?thesis by simp
qed

lemma fraction_bounds:
  fixes a w d :: real
  assumes "0 < w" "0 \<le> a" "a \<le> w"
  shows "0 \<le> a / w \<and> a / w \<le> 1"
  using assms by simp

lemma product_bounds:
  fixes q d :: real
  assumes "0 \<le> q" "q \<le> 1" "0 \<le> d"
  shows "0 \<le> q * d \<and> q * d \<le> d"
proof -
  have lo: "0 \<le> q * d" using assms(1,3) by (rule mult_nonneg_nonneg)
  have "q * d \<le> 1 * d" using assms(2,3) by (rule mult_right_mono)
  then have hi: "q * d \<le> d" by (simp only: mult_1)
  from lo hi show ?thesis by (rule conjI)
qed

lemma seek_in_bounds:
  assumes m: "mono (rounded fp)" and z: "is_double fp 0" and o: "is_double fp 1"
    and w: "is_double fp w" and d: "is_double fp d"
    and pos: "0 < w" and click: "l \<le> x" "x \<le> l + w" and dur: "0 \<le> d"
  shows "in_bounds 0 d (fmul fp (fdiv fp (fsub fp (Finite x) (Finite l)) (Finite w)) (Finite d))"
proof -
  have a: "0 \<le> x - l" "x - l \<le> w" using click by simp_all
  from to_double_between [OF m z w a] have
    s1: "fsub fp (Finite x) (Finite l) = Finite (rounded fp (x - l))"
    and a': "0 \<le> rounded fp (x - l)" "rounded fp (x - l) \<le> w" by simp_all
  from fraction_bounds [OF pos a'] have q: "0 \<le> rounded fp (x - l) / w" "rounded fp (x - l) / w \<le> 1"
    by simp_all
  from to_double_between [OF m z o q] pos have
    s2: "fdiv fp (Finite (rounded fp (x - l))) (Finite w) = Finite (rounded fp (rounded fp (x - l) / w))"
    and q': "0 \<le> rounded fp (rounded fp (x - l) / w)" "rounded fp (rounded fp (x - l) / w) \<le> 1"
    by simp_all
  from product_bounds [OF q' dur] have
    p: "0 \<le> rounded fp (rounded fp (x - l) / w) * d" "rounded fp (rounded fp (x - l) / w) * d \<le> d"
    by simp_all
  from to_double_between [OF m z d p] have
    s3: "fmul fp (Finite (rounded fp (rounded fp (x - l) / w))) (Finite d)
         = Finite (rounded fp (rounded fp (rounded fp (x - l) / w) * d))"
    and p': "0 \<le> rounded fp (rounded fp (rounded fp (x - l) / w) * d)"
      "rounded fp (rounded fp (rounded fp (x - l) / w) * d) \<le> d"
    by simp_all
  show ?thesis using s1 s2 s3 p' by (simp add: in_bounds_def)
qed

lemma fmul_infinite_duration: "\<not> is_finite (fmul fp a PosInf)"
  by (cases a) (simp_all add: is_finite_def)

lemma fdiv_zero_width: "\<not> is_finite (fdiv fp a (Finite 0))"
  by (cases a) (simp_all add: is_finite_def)

lemma fmul_not_finite: "\<not> is_finite a \<Longrightarrow> \<not> is_finite (fmul fp a b)"
  by (cases a; cases b) (simp_all add: is_finite_def)

lemma fmul_zero_duration:
  "is_finite a \<Longrightarrow> is_double fp 0 \<Longrightarrow> fmul fp a (Finite 0) = Finite 0"
  by (cases a) (simp_all add: is_finite_def is_double_def to_double_def)

text \<open>
  C4, as the code has it. On an active session, a click at \<open>clientX\<close> on a bar that
  starts at \<open>l\<close> and is \<open>w\<close> wide sets the position to the double that the code computes,
  \<open>(clientX - l) / w\<close> times the duration, each operation rounded; nothing clamps it.
  When that value is not finite, as it is not for a bar of width 0 or for an infinite
  duration, the setter of \<open>currentTime\<close> throws and the state stays as it was. For a
  click within the bar and a finite duration that is not negative, the position lies
  between 0 and the duration, under any rounding that is monotone and leaves 0, 1, the
  width and the duration as they are. With a duration of 0 and a finite fraction the
  position is set to 0.
\<close>

theorem seek_position:
  assumes "video s = Some el" and "player s = Some p"
  shows "(is_finite (fmul fp (fdiv fp (fsub fp x l) w) (duration p)) \<longrightarrow>
            player_field currentTime (handleSeek fp x l w s)
              = Inr (Some (fmul fp (fdiv fp (fsub fp x l) w) (duration p))))
   \<and> (\<not> is_finite (fmul fp (fdiv fp (fsub fp x l) w) (duration p)) \<longrightarrow>
            handleSeek fp x l w s = Inl (Platform TypeError))
   \<and> (w = Finite 0 \<or> duration p = PosInf \<longrightarrow> handleSeek fp x l w s = Inl (Platform TypeError))
   \<and> (mono (rounded fp) \<and> is_double fp 0 \<and> is_double fp 1 \<and> is_double fp w' \<and> is_double fp d
        \<and> x = Finite x' \<and> l = Finite l' \<and> w = Finite w' \<and> duration p = Finite d
        \<and> 0 < w' \<and> l' \<le> x' \<and> x' \<le> l' + w' \<and> 0 \<le> d \<longrightarrow>
            in_bounds 0 d (fmul fp (fdiv fp (fsub fp x l) w) (duration p)))
   \<and> (duration p = Finite 0 \<and> is_double fp 0 \<and> is_finite (fdiv fp (fsub fp x l) w) \<longrightarrow>
            player_field currentTime (handleSeek fp x l w s) = Inr (Some (Finite 0)))"
proof -
  let ?n = "fmul fp (fdiv fp (fsub fp x l) w) (duration p)"
  have a: "is_finite ?n \<longrightarrow> player_field currentTime (handleSeek fp x l w s) = Inr (Some ?n)"
    using assms by (simp add: handleSeek_def player_field_def showControls_fn_def Let_def)
  have b: "\<not> is_finite ?n \<longrightarrow> handleSeek fp x l w s = Inl (Platform TypeError)"
    using assms by (simp add: handleSeek_def Let_def)
  have c: "w = Finite 0 \<or> duration p = PosInf \<longrightarrow> \<not> is_finite ?n"
    using fmul_infinite_duration fdiv_zero_width fmul_not_finite by metis
  have d: "mono (rounded fp) \<and> is_double fp 0 \<and> is_double fp 1 \<and> is_double fp w' \<and> is_double fp d
        \<and> x = Finite x' \<and> l = Finite l' \<and> w = Finite w' \<and> duration p = Finite d
        \<and> 0 < w' \<and> l' \<le> x' \<and> x' \<le> l' + w' \<and> 0 \<le> d \<longrightarrow> in_bounds 0 d ?n"
    using seek_in_bounds [of fp w' d l' x'] by auto
  have e: "duration p = Finite 0 \<and> is_double fp 0 \<and> is_finite (fdiv fp (fsub fp x l) w) \<longrightarrow>
            player_field currentTime (handleSeek fp x l w s) = Inr (Some (Finite 0))"
    using a fmul_zero_duration [of "fdiv fp (fsub fp x l) w" fp]
    by (auto simp: is_finite_def)
  from a b c d e show ?thesis by blast
qed


lemma exact_fpu_largest: "1024 \<le> largest exact_fpu"
proof -
  have "(2::real) ^ 10 \<le> 2 ^ 1023" by (rule power_increasing) simp_all
  moreover have "(1::real) * 2 ^ 1023 \<le> (2 - 1 / 2 ^ 52) * 2 ^ 1023"
    by (rule mult_right_mono) simp_all
  ultimately show ?thesis by (simp add: exact_fpu_def)
qed

lemma exact_to_double: "\<bar>r\<bar> \<le> 1024 \<Longrightarrow> to_double exact_fpu r = Finite r"
proof -
  assume "\<bar>r\<bar> \<le> 1024"
  with exact_fpu_largest have "- largest exact_fpu \<le> r" "r \<le> largest exact_fpu" by linarith+
  then show ?thesis by (simp add: to_double_def exact_fpu_def Let_def)
qed

lemma exact_is_double: "\<bar>r\<bar> \<le> 1024 \<Longrightarrow> is_double exact_fpu r"
  using exact_fpu_largest by (simp add: is_double_def exact_fpu_def)

lemma exact_mono: "mono (rounded exact_fpu)"
  by (simp add: exact_fpu_def mono_def)

lemma at_start_120_eq:
  "at_start_120 = loaded_app\<lparr>player := Some
     \<lparr>url = video_url, fileName = js ''video.mp4'', isPlaying = False,
      currentTime = Finite 0, duration = Finite 120, volume = 1, isMuted = False,
      isFullscreen = False, showControls = True, blobUrl = Some 0, isProtected = True\<rparr>\<rparr>"
  by (simp add: at_start_120_def handleTimeUpdate_def loaded_app_eq)

lemma at_end_120_eq:
  "at_end_120 = loaded_app\<lparr>player := Some
     \<lparr>url = video_url, fileName = js ''video.mp4'', isPlaying = False,
      currentTime = Finite 120, duration = Finite 120, volume = 1, isMuted = False,
      isFullscreen = False, showControls = True, blobUrl = Some 0, isProtected = True\<rparr>\<rparr>"
  by (simp add: at_end_120_def handleTimeUpdate_def loaded_app_eq)

lemma unbounded_app_eq:
  "unbounded_app = loaded_app\<lparr>player := Some
     \<lparr>url = video_url, fileName = js ''video.mp4'', isPlaying = False,
      currentTime = Finite 0, duration = PosInf, volume = 1, isMuted = False,
      isFullscreen = False, showControls = True, blobUrl = Some 0, isProtected = True\<rparr>\<rparr>"
  by (simp add: unbounded_app_def handleTimeUpdate_def loaded_app_eq)

lemma quarter_click:
  "fmul exact_fpu (fdiv exact_fpu (fsub exact_fpu (Finite 168) (Finite 40)) (Finite 512)) (Finite 120)
     = Finite 30"
  by (simp add: exact_to_double)

text \<open>
  On the example at position 0 of 120 seconds, with the bar from 40 to 552: a click at a
  quarter of the bar gives 30; a bar of width 0 makes the handler throw, and so does
  unbounded media; before the duration is known the position is set to 0.
\<close>

theorem seek_position_witness:
  "player_field duration (Inr at_start_120) = Inr (Some (Finite 120))
   \<and> player_field currentTime
        (handleSeek exact_fpu (Finite 168) (Finite 40) (Finite 512) at_start_120)
       = Inr (Some (Finite 30))
   \<and> in_bounds 0 120
        (fmul exact_fpu (fdiv exact_fpu (fsub exact_fpu (Finite 168) (Finite 40)) (Finite 512))
          (Finite 120))
   \<and> handleSeek exact_fpu (Finite 168) (Finite 40) (Finite 0) at_start_120
       = Inl (Platform TypeError)
   \<and> player_field duration (Inr unbounded_app) = Inr (Some PosInf)
   \<and> handleSeek exact_fpu (Finite 168) (Finite 40) (Finite 512) unbounded_app
       = Inl (Platform TypeError)
   \<and> player_field duration (Inr loaded_app) = Inr (Some (Finite 0))
   \<and> player_field currentTime
        (handleSeek exact_fpu (Finite 168) (Finite 40) (Finite 512) loaded_app)
       = Inr (Some (Finite 0))"
proof -
  let ?p = "\<lambda>t d. \<lparr>url = video_url, fileName = js ''video.mp4'', isPlaying = False,
      currentTime = t, duration = d, volume = 1, isMuted = False,
      isFullscreen = False, showControls = True, blobUrl = Some 0, isProtected = True\<rparr>"
  let ?v = "\<lparr>el_src = Some 0, el_paused = True, el_volume = 1\<rparr>"
  have v: "video at_start_120 = Some ?v" "video unbounded_app = Some ?v" "video loaded_app = Some ?v"
    by (simp_all add: at_start_120_eq unbounded_app_eq loaded_app_eq)
  have p1: "player at_start_120 = Some (?p (Finite 0) (Finite 120))"
    by (simp add: at_start_120_eq)
  have p2: "player unbounded_app = Some (?p (Finite 0) PosInf)"
    by (simp add: unbounded_app_eq)
  have p3: "player loaded_app = Some (?p (Finite 0) (Finite 0))"
    by (simp add: loaded_app_eq)
  have dbl: "is_double exact_fpu 0" "is_double exact_fpu 1" "is_double exact_fpu 512"
    "is_double exact_fpu 120"
    by (simp_all add: exact_is_double)
  have fin: "is_finite (Finite 30)" "is_finite (fdiv exact_fpu (fsub exact_fpu (Finite 168) (Finite 40)) (Finite 512))"
    by (simp_all add: is_finite_def exact_to_double)
  show ?thesis
    using p1 p2 p3 dbl fin exact_mono quarter_click
      seek_position [OF v(1) p1, where fp = exact_fpu and x = "Finite 168" and l = "Finite 40"
        and w = "Finite 512" and x' = 168 and l' = 40 and w' = 512 and d = 120]
      seek_position [OF v(1) p1, where fp = exact_fpu and x = "Finite 168" and l = "Finite 40"
        and w = "Finite 0" and x' = 168 and l' = 40 and w' = 512 and d = 120]
      seek_position [OF v(2) p2, where fp = exact_fpu and x = "Finite 168" and l = "Finite 40"
        and w = "Finite 512" and x' = 168 and l' = 40 and w' = 512 and d = 120]
      seek_position [OF v(3) p3, where fp = exact_fpu and x = "Finite 168" and l = "Finite 40"
        and w = "Finite 512" and x' = 168 and l' = 40 and w' = 512 and d = 120]
    by (simp add: player_field_def)
qed

text \<open>
  The claim as stated fails. The thumb of the bar is a child of it, 16 wide and centred
  on the end of the filled part, so that it overhangs the bar by 8 at position 0 and at
  the end of playback; a click on the thumb reaches the same handler. On a bar from 40
  to 552 of the 120-second example, a click at 36 at position 0 stores -15/16, and a
  click at 556 at the end of playback stores 1935/16, which is above 120. Every
  operation of the two computations is exact in binary64.
\<close>

theorem seek_clamp_counterexample:
  "player_field currentTime (Inr at_start_120) = Inr (Some (Finite 0))
   \<and> player_field duration (Inr at_start_120) = Inr (Some (Finite 120))
   \<and> player_field currentTime
        (handleSeek exact_fpu (Finite 36) (Finite 40) (Finite 512) at_start_120)
       = Inr (Some (Finite (- 15 / 16)))
   \<and> player_field currentTime (Inr at_end_120) = Inr (Some (Finite 120))
   \<and> player_field duration (Inr at_end_120) = Inr (Some (Finite 120))
   \<and> player_field currentTime
        (handleSeek exact_fpu (Finite 556) (Finite 40) (Finite 512) at_end_120)
       = Inr (Some (Finite (1935 / 16)))"
  by (simp add: at_start_120_eq at_end_120_eq loaded_app_eq handleSeek_def exact_to_double
      player_field_def showControls_fn_def is_finite_def Let_def)


section \<open>Object URLs over a run of loads\<close>








section \<open>The check of a locator before the fetch\<close>

lemma direct_in_supported: "set directLinkExtensions \<subseteq> set supportedExtensions"
  by (simp add: directLinkExtensions_def supportedExtensions_def)

lemma valid_in_supported: "set validExtensions \<subseteq> (\<lambda>ext. 46 # ext) ` set supportedExtensions"
  by (simp add: validExtensions_def supportedExtensions_def js_def)

lemma isValidDirectLink_supported:
  "isValidDirectLink u \<Longrightarrow>
     list_ex (\<lambda>ext. suffix (map canonicalize (46 # ext)) (map canonicalize u)) supportedExtensions"
  using direct_in_supported by (auto simp: isValidDirectLink_def list_ex_iff)

lemma isValidMediaUrl_supported:
  "isValidMediaUrl u \<Longrightarrow>
     list_ex (\<lambda>ext. includes_str (toLowerCase u) (46 # ext)) supportedExtensions"
proof -
  assume "isValidMediaUrl u"
  then obtain ext where e: "ext \<in> set validExtensions" "includes_str (toLowerCase u) ext"
    by (auto simp: isValidMediaUrl_def list_ex_iff)
  with valid_in_supported obtain x where "x \<in> set supportedExtensions" "ext = 46 # x"
    by blast
  with e show ?thesis by (auto simp: list_ex_iff)
qed

text \<open>
  C8, as the code has it. In the protected player a fetch is started only for a locator
  that \<open>isValidDirectLink\<close> accepts: one that ends, up to case, in a dot and one of nine of
  the thirteen extensions; nothing is asked of its scheme or host. In the shareable
  player a fetch is started only for a locator that \<open>isValidMediaUrl\<close> accepts: its lower
  case holds, anywhere, a dot and one of nine of the thirteen extensions, and it starts
  with \<open>http\<close> or holds \<open>mediafire.com\<close> or \<open>drive.google.com\<close>. A locator that fails the
  check of its variant (the input not being blank, and the gate passed) is rejected
  with that variant's message, and no fetch is started.
\<close>

theorem locator_precheck:
  "(snd (handleLoadMedia e s) = Some pd \<longrightarrow> isValidDirectLink (p_url pd))
   \<and> (trim (url_input s) \<noteq> [] \<and> checkDomainSecurity (config s) e
        \<and> checkReferrerSecurity (config s) e
        \<and> \<not> isValidDirectLink (decodedUrl (url_input s)) \<longrightarrow>
        handleLoadMedia e s = (s\<lparr>error := LinkDiretoInvalido\<rparr>, None))
   \<and> (snd (loadMediaFromUrl e u t s2) = Some spd \<longrightarrow> isValidMediaUrl u \<and> sp_url spd = u)
   \<and> (trim u \<noteq> [] \<and> \<not> isValidMediaUrl u \<longrightarrow>
        loadMediaFromUrl e u t s2 = (s2\<lparr>share_error := UrlInvalido, success := NoMessage\<rparr>, None))
   \<and> (isValidDirectLink u \<longrightarrow>
        list_ex (\<lambda>ext. suffix (map canonicalize (46 # ext)) (map canonicalize u))
          supportedExtensions)
   \<and> (isValidMediaUrl u \<longrightarrow>
        list_ex (\<lambda>ext. includes_str (toLowerCase u) (46 # ext)) supportedExtensions
        \<and> (startsWith u (js ''http'') \<or> includes_str u (js ''mediafire.com'')
           \<or> includes_str u (js ''drive.google.com'')))"
proof -
  have a: "snd (handleLoadMedia e s) = Some pd \<longrightarrow> isValidDirectLink (p_url pd)"
    by (auto simp: handleLoadMedia_def Let_def split: if_splits option.splits)
  have b: "trim (url_input s) \<noteq> [] \<and> checkDomainSecurity (config s) e
        \<and> checkReferrerSecurity (config s) e
        \<and> \<not> isValidDirectLink (decodedUrl (url_input s)) \<longrightarrow>
        handleLoadMedia e s = (s\<lparr>error := LinkDiretoInvalido\<rparr>, None)"
    by (simp add: handleLoadMedia_def Let_def)
  have c: "snd (loadMediaFromUrl e u t s2) = Some spd \<longrightarrow> isValidMediaUrl u \<and> sp_url spd = u"
    by (auto simp: loadMediaFromUrl_def Let_def split: if_splits option.splits)
  have d: "trim u \<noteq> [] \<and> \<not> isValidMediaUrl u \<longrightarrow>
        loadMediaFromUrl e u t s2 = (s2\<lparr>share_error := UrlInvalido, success := NoMessage\<rparr>, None)"
    by (simp add: loadMediaFromUrl_def Let_def)
  have f: "isValidMediaUrl u \<longrightarrow>
        list_ex (\<lambda>ext. includes_str (toLowerCase u) (46 # ext)) supportedExtensions
        \<and> (startsWith u (js ''http'') \<or> includes_str u (js ''mediafire.com'')
           \<or> includes_str u (js ''drive.google.com''))"
    using isValidMediaUrl_supported [of u] by (auto simp: isValidMediaUrl_def)
  from a b c d isValidDirectLink_supported [of u] f show ?thesis by blast
qed

text \<open>
  The example locator is accepted by both variants; \<open>.mkv\<close> is rejected by the protected
  player and \<open>.wav\<close> by the shareable one.
\<close>

theorem locator_precheck_witness:
  "snd (handleLoadMedia example_env typed_app)
     = Some \<lparr>p_url = video_url, p_fileName = js ''video.mp4''\<rparr>
   \<and> isValidDirectLink video_url
   \<and> snd (loadMediaFromUrl example_env video_url None initial_share_app)
       = Some \<lparr>sp_url = video_url, sp_fileName = js ''video.mp4'', sp_existingToken = None\<rparr>
   \<and> isValidMediaUrl video_url
   \<and> \<not> isValidDirectLink (decodedUrl mkv_url)
   \<and> handleLoadMedia example_env (initial_protected_app\<lparr>url_input := mkv_url\<rparr>)
       = (initial_protected_app\<lparr>url_input := mkv_url, error := LinkDiretoInvalido\<rparr>, None)
   \<and> \<not> isValidMediaUrl wav_url
   \<and> loadMediaFromUrl example_env wav_url None initial_share_app
       = (initial_share_app\<lparr>share_error := UrlInvalido\<rparr>, None)"
proof -
  have a: "snd (handleLoadMedia example_env typed_app)
     = Some \<lparr>p_url = video_url, p_fileName = js ''video.mp4''\<rparr>"
    by (simp add: handleLoadMedia_typed)
  have b: "snd (loadMediaFromUrl example_env video_url None initial_share_app)
       = Some \<lparr>sp_url = video_url, sp_fileName = js ''video.mp4'', sp_existingToken = None\<rparr>"
    using video_url_valid isValidMediaUrl_nonblank [OF video_url_valid] video_url_name(1)
    by (simp add: loadMediaFromUrl_def extractFileName_share_def js_def)
  have g: "checkDomainSecurity (config (initial_protected_app\<lparr>url_input := mkv_url\<rparr>)) example_env"
    "checkReferrerSecurity (config (initial_protected_app\<lparr>url_input := mkv_url\<rparr>)) example_env"
    by (simp_all add: initial_protected_app_def initial_config_def checkDomainSecurity_def
        checkReferrerSecurity_def)
  show ?thesis
    using a b g mkv_url_facts(2,3) wav_url_facts(2,3)
      locator_precheck [where e = example_env and s = typed_app
        and pd = "\<lparr>p_url = video_url, p_fileName = js ''video.mp4''\<rparr>"
        and u = video_url and t = None and ?s2.0 = initial_share_app
        and spd = "\<lparr>sp_url = video_url, sp_fileName = js ''video.mp4'', sp_existingToken = None\<rparr>"]
      locator_precheck [where e = example_env and s = "initial_protected_app\<lparr>url_input := mkv_url\<rparr>"
        and pd = "\<lparr>p_url = video_url, p_fileName = js ''video.mp4''\<rparr>"
        and u = wav_url and t = None and ?s2.0 = initial_share_app
        and spd = "\<lparr>sp_url = video_url, sp_fileName = js ''video.mp4'', sp_existingToken = None\<rparr>"]
    by (simp add: initial_share_app_def)
qed

text \<open>
  The claim as stated fails: the shareable player fetches a locator whose path ends in
  \<open>.exe\<close>, the protected player fetches a bare file name with no scheme or host, and
  each variant rejects a locator that is valid in the specification's words.
\<close>

theorem locator_precheck_counterexample:
  "\<not> spec_locator_valid exe_url
   \<and> snd (loadMediaFromUrl example_env exe_url None initial_share_app)
       = Some \<lparr>sp_url = exe_url, sp_fileName = js ''a.mp4.exe'', sp_existingToken = None\<rparr>
   \<and> \<not> spec_locator_valid bare_name
   \<and> snd (handleLoadMedia example_env (initial_protected_app\<lparr>url_input := bare_name\<rparr>))
       = Some \<lparr>p_url = bare_name, p_fileName = bare_name\<rparr>
   \<and> spec_locator_valid mkv_url
   \<and> handleLoadMedia example_env (initial_protected_app\<lparr>url_input := mkv_url\<rparr>)
       = (initial_protected_app\<lparr>url_input := mkv_url, error := LinkDiretoInvalido\<rparr>, None)
   \<and> spec_locator_valid wav_url
   \<and> loadMediaFromUrl example_env wav_url None initial_share_app
       = (initial_share_app\<lparr>share_error := UrlInvalido\<rparr>, None)"
  by (simp add: exe_url_facts bare_name_facts mkv_url_facts wav_url_facts)

section \<open>Share links\<close>



























section \<open>A second load while one is in flight\<close>

lemma share_loading_app_eq:
  "share_loading_app = initial_share_app\<lparr>mediaUrl := video_url, share_isLoading := True\<rparr>"
  using video_url_valid isValidMediaUrl_nonblank [OF video_url_valid] video_url_name(1)
  by (simp add: share_loading_app_def handleGeneratePlayer_def loadMediaFromUrl_def
      extractFileName_share_def js_def initial_share_app_def)

lemma b_url_share:
  "isValidMediaUrl b_url" "trim b_url \<noteq> []"
  "decodeURIComponent example_env (before_query (last_part b_url)) = Some (js ''b.mp4'')"
  by (simp_all add: isValidMediaUrl_def validExtensions_def example_env_def b_url_units
      string_eval)

lemma handleLoadMedia_flag_off:
  "\<not> isLoading s \<Longrightarrow> handleLoadMedia e s = (s1, None) \<Longrightarrow> \<not> isLoading s1"
  by (auto simp: handleLoadMedia_def Let_def split: if_splits option.splits)

lemma handleLoadMedia_flag_on:
  "handleLoadMedia e s = (s1, Some pd) \<Longrightarrow> isLoading s1"
  by (auto simp: handleLoadMedia_def Let_def split: if_splits option.splits)

lemma handleLoadMedia_resume_flag: "\<not> isLoading (handleLoadMedia_resume r pd s)"
  by (cases r) (simp_all add: handleLoadMedia_resume_def createProtectedBlob_def
      createObjectURL_def Let_def)

lemma button_step_keeps:
  assumes "one_in_flight c"
  shows "one_in_flight (button_step e c ev)"
proof (cases c)
  case (Pair s ps)
  show ?thesis
  proof (cases ev)
    case (Typed u)
    with assms Pair show ?thesis by (simp add: one_in_flight_def)
  next
    case Clicked
    show ?thesis
    proof (cases "isLoading s")
      case True
      with assms Pair Clicked show ?thesis
        by (simp add: one_in_flight_def click_load_button_def)
    next
      case False
      with assms Pair have empty: "ps = []" by (simp add: one_in_flight_def)
      obtain s1 r where h: "handleLoadMedia e s = (s1, r)" by (cases "handleLoadMedia e s")
      show ?thesis
      proof (cases r)
        case None
        with h False have "\<not> isLoading s1" using handleLoadMedia_flag_off by blast
        with Pair Clicked False empty h None show ?thesis
          by (simp add: one_in_flight_def click_load_button_def)
      next
        case (Some pd)
        with h have "isLoading s1" using handleLoadMedia_flag_on by blast
        with Pair Clicked False empty h Some show ?thesis
          by (simp add: one_in_flight_def click_load_button_def)
      qed
    qed
  next
    case (Settled r)
    show ?thesis
    proof (cases ps)
      case Nil
      with assms Pair Settled show ?thesis by (simp add: one_in_flight_def)
    next
      case (Cons pd rest)
      with assms Pair have "rest = []" by (simp add: one_in_flight_def)
      with Pair Settled Cons show ?thesis
        by (simp add: one_in_flight_def handleLoadMedia_resume_flag)
    qed
  qed
qed

lemma button_run_keeps:
  "one_in_flight c \<Longrightarrow> one_in_flight (foldl (button_step e) c evs)"
  by (induction evs arbitrary: c) (simp_all add: button_step_keeps)

lemma click_ignored:
  "one_in_flight c \<Longrightarrow> snd c \<noteq> [] \<Longrightarrow> button_step e c Clicked = c"
  by (cases c) (simp add: click_load_button_def one_in_flight_def)

lemma loadMediaFromUrl_flag_off:
  "\<not> share_isLoading s \<Longrightarrow> loadMediaFromUrl e u t s = (s1, None) \<Longrightarrow> \<not> share_isLoading s1"
  by (auto simp: loadMediaFromUrl_def Let_def split: if_splits option.splits)

lemma loadMediaFromUrl_flag_on:
  "loadMediaFromUrl e u t s = (s1, Some pd) \<Longrightarrow> share_isLoading s1"
  by (auto simp: loadMediaFromUrl_def Let_def split: if_splits option.splits)

lemma loadMediaFromUrl_resume_flag: "\<not> share_isLoading (loadMediaFromUrl_resume e r pd s)"
  by (cases r) (simp_all add: loadMediaFromUrl_resume_def createProtectedBlob_share_def
      createObjectURL_def Let_def split: option.splits)

lemma share_button_step_keeps:
  assumes "share_one_in_flight c"
  shows "share_one_in_flight (share_button_step e c ev)"
proof (cases c)
  case (Pair s ps)
  show ?thesis
  proof (cases ev)
    case (Typed u)
    with assms Pair show ?thesis by (simp add: share_one_in_flight_def)
  next
    case Clicked
    show ?thesis
    proof (cases "share_isLoading s")
      case True
      with assms Pair Clicked show ?thesis
        by (simp add: share_one_in_flight_def click_generate_button_def)
    next
      case False
      with assms Pair have empty: "ps = []" by (simp add: share_one_in_flight_def)
      obtain s1 r where h: "loadMediaFromUrl e (mediaUrl s) None s = (s1, r)"
        by (cases "loadMediaFromUrl e (mediaUrl s) None s")
      show ?thesis
      proof (cases r)
        case None
        with h False have "\<not> share_isLoading s1" using loadMediaFromUrl_flag_off by blast
        with Pair Clicked False empty h None show ?thesis
          by (simp add: share_one_in_flight_def click_generate_button_def
              handleGeneratePlayer_def)
      next
        case (Some pd)
        with h have "share_isLoading s1" using loadMediaFromUrl_flag_on by blast
        with Pair Clicked False empty h Some show ?thesis
          by (simp add: share_one_in_flight_def click_generate_button_def
              handleGeneratePlayer_def)
      qed
    qed
  next
    case (Settled r)
    show ?thesis
    proof (cases ps)
      case Nil
      with assms Pair Settled show ?thesis by (simp add: share_one_in_flight_def)
    next
      case (Cons pd rest)
      with assms Pair have "rest = []" by (simp add: share_one_in_flight_def)
      with Pair Settled Cons show ?thesis
        by (simp add: share_one_in_flight_def loadMediaFromUrl_resume_flag)
    qed
  qed
qed

lemma share_button_run_keeps:
  "share_one_in_flight c \<Longrightarrow> share_one_in_flight (foldl (share_button_step e) c evs)"
  by (induction evs arbitrary: c) (simp_all add: share_button_step_keeps)

lemma share_click_ignored:
  "share_one_in_flight c \<Longrightarrow> snd c \<noteq> [] \<Longrightarrow> share_button_step e c Clicked = c"
  by (cases c) (simp add: click_generate_button_def share_one_in_flight_def)

lemma loadMediaFromUrl_flag:
  "\<not> share_isLoading s \<Longrightarrow>
     share_isLoading (fst (loadMediaFromUrl e u t s)) = (snd (loadMediaFromUrl e u t s) \<noteq> None)"
  by (auto simp: loadMediaFromUrl_def Let_def split: if_splits option.splits)

lemma restore_on_mount_flag:
  "share_isLoading (fst (restore_on_mount e initial_share_app))
     = (snd (restore_on_mount e initial_share_app) \<noteq> None)"
proof -
  have off: "\<not> share_isLoading (initial_share_app\<lparr>mediaUrl := u\<rparr>)" for u
    by (simp add: initial_share_app_def)
  have off0: "\<not> share_isLoading initial_share_app" by (simp add: initial_share_app_def)
  show ?thesis
    using off0 by (simp add: restore_on_mount_def loadMediaFromUrl_flag [OF off]
        split: option.split)
qed

lemma share_mounted_one: "share_one_in_flight (share_mounted e)"
proof -
  obtain s r where h: "restore_on_mount e initial_share_app = (s, r)"
    by (cases "restore_on_mount e initial_share_app")
  from restore_on_mount_flag [of e] h show ?thesis
    by (cases r) (simp_all add: share_mounted_def share_one_in_flight_def)
qed

text \<open>
  C5, as the code has it. When loads are asked for through the load button only, at most
  one load is in flight: from the start of the protected player, and from the mounted
  shareable player with the load its share link may have started, however the user
  types and clicks and however the fetches settle, at most one fetch is pending and
  \<open>isLoading\<close> is set exactly while one is. While one is pending the button is disabled:
  a click on it starts no load, changes nothing and reports nothing.
\<close>

theorem load_button_single_flight:
  "one_in_flight (foldl (button_step e) (initial_protected_app, []) evs)
   \<and> (snd (foldl (button_step e) (initial_protected_app, []) evs) \<noteq> [] \<longrightarrow>
        button_step e (foldl (button_step e) (initial_protected_app, []) evs) Clicked
          = foldl (button_step e) (initial_protected_app, []) evs)
   \<and> share_one_in_flight (foldl (share_button_step e) (share_mounted e) evs)
   \<and> (snd (foldl (share_button_step e) (share_mounted e) evs) \<noteq> [] \<longrightarrow>
        share_button_step e (foldl (share_button_step e) (share_mounted e) evs) Clicked
          = foldl (share_button_step e) (share_mounted e) evs)"
proof -
  have start: "one_in_flight (initial_protected_app, [])"
    by (simp add: one_in_flight_def initial_protected_app_def)
  have a: "one_in_flight (foldl (button_step e) (initial_protected_app, []) evs)"
    using start by (rule button_run_keeps)
  have b: "share_one_in_flight (foldl (share_button_step e) (share_mounted e) evs)"
    using share_mounted_one by (rule share_button_run_keeps)
  from a b click_ignored [OF a] share_click_ignored [OF b] show ?thesis by blast
qed

lemma typed_and_clicked:
  "foldl (button_step example_env) (initial_protected_app, []) [Typed video_url, Clicked]
     = (loading_app, [\<lparr>p_url = video_url, p_fileName = js ''video.mp4''\<rparr>])"
proof -
  have "click_load_button example_env typed_app
     = (loading_app, Some \<lparr>p_url = video_url, p_fileName = js ''video.mp4''\<rparr>)"
    by (simp add: click_load_button_def handleLoadMedia_typed loading_app_eq)
       (simp add: typed_app_def initial_protected_app_def)
  then show ?thesis by (simp add: typed_app_def)
qed

lemma share_typed_and_clicked:
  "foldl (share_button_step example_env) (share_mounted example_env) [Typed video_url, Clicked]
     = (share_loading_app,
        [\<lparr>sp_url = video_url, sp_fileName = js ''video.mp4'', sp_existingToken = None\<rparr>])"
proof -
  have m: "share_mounted example_env = (initial_share_app, [])"
    by (simp add: share_mounted_def restore_on_mount_def example_env_def params_get_def)
  have "click_generate_button example_env typed_share_app
     = (share_loading_app,
        Some \<lparr>sp_url = video_url, sp_fileName = js ''video.mp4'', sp_existingToken = None\<rparr>)"
    using video_url_valid isValidMediaUrl_nonblank [OF video_url_valid] video_url_name(1)
    by (simp add: click_generate_button_def handleGeneratePlayer_def loadMediaFromUrl_def
        extractFileName_share_def js_def share_loading_app_eq typed_share_app_def
        initial_share_app_def)
  with m show ?thesis by (simp add: typed_share_app_def)
qed

text \<open>
  The example locator typed and the button clicked, in both players: one fetch is
  pending, and a second click changes nothing.
\<close>

theorem load_button_single_flight_witness:
  "foldl (button_step example_env) (initial_protected_app, []) [Typed video_url, Clicked]
     = (loading_app, [\<lparr>p_url = video_url, p_fileName = js ''video.mp4''\<rparr>])
   \<and> isLoading loading_app
   \<and> button_step example_env
        (loading_app, [\<lparr>p_url = video_url, p_fileName = js ''video.mp4''\<rparr>]) Clicked
       = (loading_app, [\<lparr>p_url = video_url, p_fileName = js ''video.mp4''\<rparr>])
   \<and> foldl (share_button_step example_env) (share_mounted example_env)
        [Typed video_url, Clicked]
       = (share_loading_app,
          [\<lparr>sp_url = video_url, sp_fileName = js ''video.mp4'', sp_existingToken = None\<rparr>])
   \<and> share_isLoading share_loading_app
   \<and> share_button_step example_env
        (share_loading_app,
         [\<lparr>sp_url = video_url, sp_fileName = js ''video.mp4'', sp_existingToken = None\<rparr>])
        Clicked
       = (share_loading_app,
          [\<lparr>sp_url = video_url, sp_fileName = js ''video.mp4'', sp_existingToken = None\<rparr>])"
  using typed_and_clicked share_typed_and_clicked
    load_button_single_flight [of example_env "[Typed video_url, Clicked]"]
  by (simp add: one_in_flight_def share_one_in_flight_def)


text \<open>
  The claim as stated fails. The Enter key in the input field calls the loader directly,
  and the loader does not look at \<open>isLoading\<close>: with another locator typed while the
  first fetch is in flight, it starts a second load and reports nothing, in both
  variants, where a click on the button starts none; when both fetches succeed, each
  registers an object URL.
\<close>

theorem second_load_counterexample:
  "isLoading loading_app
   \<and> click_load_button example_env (loading_app\<lparr>url_input := b_url\<rparr>)
       = (loading_app\<lparr>url_input := b_url\<rparr>, None)
   \<and> handleKeyPress (js ''Enter'') example_env (loading_app\<lparr>url_input := b_url\<rparr>)
       = (loading_app\<lparr>url_input := b_url\<rparr>, Some \<lparr>p_url = b_url, p_fileName = js ''b.mp4''\<rparr>)
   \<and> objectUrls
        (handleLoadMedia_resume Fetched \<lparr>p_url = b_url, p_fileName = js ''b.mp4''\<rparr>
          (handleLoadMedia_resume Fetched \<lparr>p_url = video_url, p_fileName = js ''video.mp4''\<rparr>
            (loading_app\<lparr>url_input := b_url\<rparr>))) = [0, 1]
   \<and> share_isLoading share_loading_app
   \<and> click_generate_button example_env (share_loading_app\<lparr>mediaUrl := b_url\<rparr>)
       = (share_loading_app\<lparr>mediaUrl := b_url\<rparr>, None)
   \<and> handleKeyPress_share (js ''Enter'') example_env (share_loading_app\<lparr>mediaUrl := b_url\<rparr>)
       = (share_loading_app\<lparr>mediaUrl := b_url\<rparr>,
          Some \<lparr>sp_url = b_url, sp_fileName = js ''b.mp4'', sp_existingToken = None\<rparr>)"
proof -
  have a: "isLoading loading_app" by (rule loading_app_fields)
  have b: "click_load_button example_env (loading_app\<lparr>url_input := b_url\<rparr>)
       = (loading_app\<lparr>url_input := b_url\<rparr>, None)"
    by (simp add: click_load_button_def loading_app_fields)
  have c: "handleKeyPress (js ''Enter'') example_env (loading_app\<lparr>url_input := b_url\<rparr>)
       = (loading_app\<lparr>url_input := b_url\<rparr>, Some \<lparr>p_url = b_url, p_fileName = js ''b.mp4''\<rparr>)"
    by (simp add: handleKeyPress_def handleLoadMedia_b [OF loading_app_fields(1,2)])
       (simp add: loading_app_eq typed_app_def initial_protected_app_def)
  have d: "objectUrls
        (handleLoadMedia_resume Fetched \<lparr>p_url = b_url, p_fileName = js ''b.mp4''\<rparr>
          (handleLoadMedia_resume Fetched \<lparr>p_url = video_url, p_fileName = js ''video.mp4''\<rparr>
            (loading_app\<lparr>url_input := b_url\<rparr>))) = [0, 1]"
    by (simp add: handleLoadMedia_resume_def createProtectedBlob_def createObjectURL_def Let_def
        loading_app_eq typed_app_def initial_protected_app_def)
  have e: "share_isLoading share_loading_app"
    by (simp add: share_loading_app_eq)
  have f: "click_generate_button example_env (share_loading_app\<lparr>mediaUrl := b_url\<rparr>)
       = (share_loading_app\<lparr>mediaUrl := b_url\<rparr>, None)"
    by (simp add: click_generate_button_def share_loading_app_eq)
  have g: "handleKeyPress_share (js ''Enter'') example_env (share_loading_app\<lparr>mediaUrl := b_url\<rparr>)
       = (share_loading_app\<lparr>mediaUrl := b_url\<rparr>,
          Some \<lparr>sp_url = b_url, sp_fileName = js ''b.mp4'', sp_existingToken = None\<rparr>)"
    using b_url_share
    by (simp add: handleKeyPress_share_def handleGeneratePlayer_def loadMediaFromUrl_def
        extractFileName_share_def share_loading_app_eq initial_share_app_def)
       (simp add: js_def)
  from a b c d e f g show ?thesis by simp
qed

end
